theory Spec2Isabelle
  imports Main "HOL-Library.Sublist"
begin

section \<open>The interpreter: strings and the depth of recursion\<close>

text \<open>
  A Python \<^verbatim>\<open>str\<close> is modelled as a \<^typ>\<open>string\<close>: a list of characters whose code
  points lie in 0..255. The built-in string methods the module calls are written out here
  for that range.
\<close>

definition py_whitespace :: "char \<Rightarrow> bool" where
  \<comment> \<open>the characters for which \<^verbatim>\<open>str.isspace\<close> holds, which are also the class \<^verbatim>\<open>\s\<close>\<close>
  "py_whitespace c =
     (let n = (of_char c :: nat)
      in (9 \<le> n \<and> n \<le> 13) \<or> (28 \<le> n \<and> n \<le> 32) \<or> n = 133 \<or> n = 160)"

definition isspace :: "string \<Rightarrow> bool" where
  "isspace s = (s \<noteq> [] \<and> list_all py_whitespace s)"

definition startswith :: "string \<Rightarrow> string \<Rightarrow> bool" where
  "startswith s p = prefix p s"

definition endswith :: "string \<Rightarrow> string \<Rightarrow> bool" where
  "endswith s p = prefix (rev p) (rev s)"

definition lower_char :: "char \<Rightarrow> char" where
  "lower_char c =
     (let n = (of_char c :: nat)
      in if (65 \<le> n \<and> n \<le> 90) \<or> (192 \<le> n \<and> n \<le> 214) \<or> (216 \<le> n \<and> n \<le> 222)
         then char_of (n + 32) else c)"

definition lower :: "string \<Rightarrow> string" where
  "lower s = map lower_char s"

text \<open>
  \<^verbatim>\<open>s.replace(old, new)\<close>: the occurrences of \<^verbatim>\<open>old\<close> are found from left to right
  and do not overlap; the text put in is not searched again. An empty \<^verbatim>\<open>old\<close> matches
  before every character and at the end.
\<close>

function replace_nonempty :: "string \<Rightarrow> string \<Rightarrow> string \<Rightarrow> string" where
  "replace_nonempty [] old new = []"
| "replace_nonempty (c # cs) old new =
     (if old \<noteq> [] \<and> prefix old (c # cs)
      then new @ replace_nonempty (drop (length old) (c # cs)) old new
      else c # replace_nonempty cs old new)"
  by pat_completeness auto
termination
  by (relation "measure (\<lambda>(s, old, new). length s)") auto

definition replace :: "string \<Rightarrow> string \<Rightarrow> string \<Rightarrow> string" where
  "replace s old new =
     (if old = [] then new @ concat (map (\<lambda>c. c # new) s)
      else replace_nonempty s old new)"

definition is_linebreak :: "char \<Rightarrow> bool" where
  \<comment> \<open>the line boundaries of \<^verbatim>\<open>str.splitlines\<close> below code point 256\<close>
  "is_linebreak c =
     (let n = (of_char c :: nat)
      in (10 \<le> n \<and> n \<le> 13) \<or> (28 \<le> n \<and> n \<le> 30) \<or> n = 133)"

fun splitlines_from :: "string \<Rightarrow> string \<Rightarrow> string list" where
  "splitlines_from cur [] = (if cur = [] then [] else [cur])"
| "splitlines_from cur (c # cs) =
     (if c = CHR 0x0D \<and> startswith cs [CHR 0x0A] then cur # splitlines_from [] (tl cs)
      else if is_linebreak c then cur # splitlines_from [] cs
      else splitlines_from (cur @ [c]) cs)"

definition splitlines :: "string \<Rightarrow> string list" where
  "splitlines s = splitlines_from [] s"

definition recursion_limit :: nat where
  \<comment> \<open>the depth of recursion that the interpreter admits by default\<close>
  "recursion_limit = 1000"

section \<open>Module constants\<close>

definition RAISE_NONE_ERROR :: bool where
  "RAISE_NONE_ERROR = False"

text \<open>The dictionary, as a list of (escaped, original) items in its order of insertion.\<close>

definition XML_REPLACEMENT_CHARS :: "(string \<times> string) list" where
  \<open>XML_REPLACEMENT_CHARS =
     [(''&quot;'', ''"''),
      (''&apos;'', [CHR 0x27]),
      (''&lt;'', ''<''),
      (''&gt;'', ''>''),
      (''&amp;'', ''&'')]\<close>

section \<open>Regular expressions\<close>

text \<open>
  The part of the \<^verbatim>\<open>re\<close> module that the patterns of the module use: literals, character
  sets, the dot, \<^verbatim>\<open>\S\<close>, sequence, ordered alternative, the greedy and the lazy star and
  numbered groups. A match is searched by backtracking; \<open>ms r (g, s)\<close> lists, in the order
  in which the backtracking finds them, every way in which \<open>r\<close> matches at the start of
  \<open>s\<close>, as the groups set so far and the text left. The first element is the match that
  \<^verbatim>\<open>re\<close> reports. An iteration of a star that consumes nothing is not repeated.
\<close>

datatype citem = Ch char | Rg char char

fun in_item :: "char \<Rightarrow> citem \<Rightarrow> bool" where
  "in_item c (Ch a) = (c = a)"
| "in_item c (Rg a b) = ((of_char a :: nat) \<le> of_char c \<and> (of_char c :: nat) \<le> of_char b)"

datatype rexp =
    Lit char
  | CSet "citem list"
  | NSet "citem list"
  | Dot
  | NonSpace
  | Eps
  | Seq rexp rexp
  | Alt rexp rexp
  | Star rexp
  | LStar rexp
  | Grp nat rexp

type_synonym mstate = "(nat \<times> string) list \<times> string"

fun one_char :: "(char \<Rightarrow> bool) \<Rightarrow> mstate \<Rightarrow> mstate list" where
  "one_char p (g, []) = []"
| "one_char p (g, c # cs) = (if p c then [(g, cs)] else [])"

fun ms :: "rexp \<Rightarrow> mstate \<Rightarrow> mstate list" where
  "ms (Lit a) st = one_char (\<lambda>c. c = a) st"
| "ms (CSet its) st = one_char (\<lambda>c. list_ex (in_item c) its) st"
| "ms (NSet its) st = one_char (\<lambda>c. \<not> list_ex (in_item c) its) st"
| "ms Dot st = one_char (\<lambda>c. c \<noteq> CHR 0x0A) st"
| "ms NonSpace st = one_char (\<lambda>c. \<not> py_whitespace c) st"
| "ms Eps st = [st]"
| "ms (Seq a b) st = concat (map (ms b) (ms a st))"
| "ms (Alt a b) st = ms a st @ ms b st"
| "ms (Star a) (g, s) =
     concat (map (\<lambda>(g', t). if length t < length s then ms (Star a) (g', t) else [])
                 (ms a (g, s)))
     @ [(g, s)]"
| "ms (LStar a) (g, s) =
     (g, s) #
     concat (map (\<lambda>(g', t). if length t < length s then ms (LStar a) (g', t) else [])
                 (ms a (g, s)))"
| "ms (Grp i a) (g, s) =
     map (\<lambda>(g', t). ((i, take (length s - length t) s) # g', t)) (ms a (g, s))"

fun Cat :: "rexp list \<Rightarrow> rexp" where
  "Cat [] = Eps"
| "Cat [r] = r"
| "Cat (r # rs) = Seq r (Cat rs)"

definition Lits :: "string \<Rightarrow> rexp" where
  "Lits s = Cat (map Lit s)"

definition Opt :: "rexp \<Rightarrow> rexp" where
  "Opt r = Alt r Eps"

definition Many1 :: "rexp \<Rightarrow> rexp" where
  "Many1 r = Seq r (Star r)"

text \<open>
  \<^verbatim>\<open>pattern.findall(string)\<close>: the scan of the string from left to right. At each position
  the first match is taken; where there is none the scan moves one character on. After an
  empty match the next match at the same position has to consume something. Each item is
  the matched text with the groups of the match.
\<close>

definition admissible :: "bool \<Rightarrow> string \<Rightarrow> mstate \<Rightarrow> bool" where
  "admissible must_advance s m = (if must_advance then length (snd m) < length s else True)"

function scan :: "rexp \<Rightarrow> bool \<Rightarrow> string \<Rightarrow> (string \<times> (nat \<times> string) list) list" where
  "scan r must_advance s =
     (case filter (admissible must_advance s) (ms r ([], s)) of
        [] \<Rightarrow> (case s of [] \<Rightarrow> [] | c # cs \<Rightarrow> scan r False cs)
      | (g, t) # _ \<Rightarrow>
          (take (length s - length t) s, g) #
          (if length t < length s then scan r False t
           else if must_advance then []
           else scan r True s))"
  by pat_completeness auto
termination
  by (relation "measure (\<lambda>(r, adv, s). 2 * length s + (if adv then 0 else 1))") auto

declare scan.simps [simp del]

definition findall :: "rexp \<Rightarrow> string \<Rightarrow> string list" where
  \<comment> \<open>the items of a pattern without groups\<close>
  "findall r s = map fst (scan r False s)"

definition group :: "(nat \<times> string) list \<Rightarrow> nat \<Rightarrow> string" where
  "group g i = (case map_of g i of None \<Rightarrow> [] | Some x \<Rightarrow> x)"

definition findall2 :: "rexp \<Rightarrow> string \<Rightarrow> (string \<times> string) list" where
  \<comment> \<open>the items of a pattern with two groups\<close>
  "findall2 r s = map (\<lambda>(m, g). (group g 1, group g 2)) (scan r False s)"

section \<open>RegexCollector\<close>

definition GetAttr :: rexp where
  \<open>GetAttr = Cat [Grp 1 (LStar NonSpace), Lits ''="'', Grp 2 (LStar Dot), Lit CHR ''"'']\<close>

definition TextSE :: rexp where
  "TextSE = Many1 (NSet [Ch CHR ''<''])"

definition UntilHyphen :: rexp where
  "UntilHyphen = Cat [Star (NSet [Ch CHR ''-'']), Lit CHR ''-'']"

definition Until2Hyphens :: rexp where
  "Until2Hyphens =
     Cat [UntilHyphen, Star (Cat [NSet [Ch CHR ''-''], UntilHyphen]), Lit CHR ''-'']"

definition CommentCE :: rexp where
  "CommentCE = Cat [Until2Hyphens, Opt (Lit CHR ''>'')]"

definition UntilRSBs :: rexp where
  "UntilRSBs =
     Cat [Star (NSet [Ch CHR '']'']), Lit CHR '']'',
          Star (Cat [Many1 (NSet [Ch CHR '']'']), Lit CHR '']'']),
          Many1 (Lit CHR '']'')]"

definition CDATA_CE :: rexp where
  "CDATA_CE =
     Cat [UntilRSBs, Star (Cat [NSet [Ch CHR '']'', Ch CHR ''>''], UntilRSBs]), Lit CHR ''>'']"

definition S :: rexp where
  "S = Many1 (CSet [Ch CHR '' '', Ch CHR 0x0A, Ch CHR 0x09, Ch CHR 0x0D])"

definition NameStrt :: rexp where
  "NameStrt =
     Alt (CSet [Rg CHR ''A'' CHR ''Z'', Rg CHR ''a'' CHR ''z'', Ch CHR ''_'', Ch CHR '':''])
         (NSet [Rg CHR 0x00 CHR 0x7F])"

definition NameChar :: rexp where
  "NameChar =
     Alt (CSet [Rg CHR ''A'' CHR ''Z'', Rg CHR ''a'' CHR ''z'', Rg CHR ''0'' CHR ''9'',
                Ch CHR ''_'', Ch CHR '':'', Ch CHR ''.'', Ch CHR ''-''])
         (NSet [Rg CHR 0x00 CHR 0x7F])"

definition Name :: rexp where
  "Name = Cat [NameStrt, Star NameChar]"

definition QuoteSE :: rexp where
  \<open>QuoteSE =
     Alt (Cat [Lit CHR ''"'', Star (NSet [Ch CHR ''"'']), Lit CHR ''"''])
         (Cat [Lit CHR 0x27, Star (NSet [Ch CHR 0x27]), Lit CHR 0x27])\<close>

definition DT_IdentSE :: rexp where
  "DT_IdentSE = Cat [S, Name, Star (Cat [S, Alt Name QuoteSE])]"

definition MarkupDeclCE :: rexp where
  \<open>MarkupDeclCE =
     Cat [Star (Alt (Many1 (NSet [Ch CHR '']'', Ch CHR ''"'', Ch CHR 0x27, Ch CHR ''>'',
                                 Ch CHR ''<'']))
                    QuoteSE),
          Lit CHR ''>'']\<close>

definition S1 :: rexp where
  "S1 = CSet [Ch CHR 0x0A, Ch CHR 0x0D, Ch CHR 0x09, Ch CHR '' '']"

definition UntilQMs :: rexp where
  "UntilQMs = Cat [Star (NSet [Ch CHR ''?'']), Many1 (Lit CHR ''?'')]"

definition PI_Tail :: rexp where
  "PI_Tail =
     Alt (Lits ''?>'')
         (Cat [S1, UntilQMs, Star (Cat [NSet [Ch CHR ''>'', Ch CHR ''?''], UntilQMs]),
               Lit CHR ''>''])"

definition DT_ItemSE :: rexp where
  "DT_ItemSE =
     Alt (Cat [Lit CHR ''<'',
               Alt (Cat [Lit CHR ''!'',
                         Alt (Cat [Lits ''--'', Until2Hyphens, Lit CHR ''>''])
                             (Cat [NSet [Ch CHR ''-''], MarkupDeclCE])])
                   (Cat [Lit CHR ''?'', Name, PI_Tail])])
         (Alt (Cat [Lit CHR ''%'', Name, Lit CHR '';''])
              S)"

definition DocTypeCE :: rexp where
  "DocTypeCE =
     Cat [DT_IdentSE, Opt S,
          Opt (Cat [Lit CHR ''['', Star DT_ItemSE, Lit CHR '']'', Opt S]),
          Opt (Lit CHR ''>'')]"

definition DeclCE :: rexp where
  "DeclCE =
     Alt (Cat [Lits ''--'', Opt CommentCE])
         (Alt (Cat [Lits ''[CDATA['', Opt CDATA_CE])
              (Cat [Lits ''DOCTYPE'', Opt DocTypeCE]))"

definition PI_CE :: rexp where
  "PI_CE = Cat [Name, Opt PI_Tail]"

definition EndTagCE :: rexp where
  "EndTagCE = Cat [Name, Opt S, Opt (Lit CHR ''>'')]"

definition AttValSE :: rexp where
  \<open>AttValSE =
     Alt (Cat [Lit CHR ''"'', Star (NSet [Ch CHR ''<'', Ch CHR ''"'']), Lit CHR ''"''])
         (Cat [Lit CHR 0x27, Star (NSet [Ch CHR ''<'', Ch CHR 0x27]), Lit CHR 0x27])\<close>

definition ElemTagCE :: rexp where
  "ElemTagCE =
     Cat [Name,
          Star (Cat [S, Name, Opt S, Lit CHR ''='', Opt S, AttValSE]),
          Opt S, Opt (Lit CHR ''/''), Opt (Lit CHR ''>'')]"

definition MarkupSPE :: rexp where
  "MarkupSPE =
     Seq (Lit CHR ''<'')
         (Alt (Cat [Lit CHR ''!'', Opt DeclCE])
              (Alt (Cat [Lit CHR ''?'', Opt PI_CE])
                   (Alt (Cat [Lit CHR ''/'', Opt EndTagCE])
                        (Opt ElemTagCE))))"

definition XML_SPE :: rexp where
  "XML_SPE = Alt TextSE MarkupSPE"

definition XML_MARKUP_ONLY_SPE :: rexp where
  "XML_MARKUP_ONLY_SPE = MarkupSPE"

section \<open>Errors\<close>

text \<open>
  The module raises one exception class of its own, \<^verbatim>\<open>XmlException\<close>, with four
  messages; a message is kept as the values formatted into it. The other errors are
  raised by the interpreter.
\<close>

datatype message =
    No_tag_name_found string nat nat
  | Closing_node_but_no_open_node string nat nat
  | Closing_and_open_tag_do_not_match string string nat nat
  | Subnode_not_found string string

datatype error =
    XmlException message
  | AssertionError
  | AttributeError
  | IndexError
  | KeyError
  | ValueError
  | RecursionError

section \<open>Objects\<close>

text \<open>
  Nodes are objects that the parser and the tree share by reference: a node is appended
  to the children of its parent when its start tag is read and is changed afterwards,
  while it is open. The objects live in a store, a list indexed by address; a new object
  is put at the end, and no object is ever removed. A field that refers to a node holds
  its address. Every address held in a field is the address of an object of the store.
\<close>

type_synonym addr = nat

text \<open>
  The field \<open>val\<close> is the attribute behind the property \<^verbatim>\<open>value\<close>; it is written
  through \<open>set_value_property\<close> only, as the setter of the property does.
\<close>

record XmlNode =
  tag :: string
  attributes :: "(string \<times> string) list"
  val :: "string option"
  nodes :: "addr list"

type_synonym store = "XmlNode list"

record XmlRoot =
  version :: string
  encoding :: "string option"
  standalone :: "string option"
  rootnode :: "addr option"

definition truthy :: "string option \<Rightarrow> bool" where
  \<comment> \<open>the truth value of \<^verbatim>\<open>None\<close> or of a string\<close>
  "truthy v = (case v of None \<Rightarrow> False | Some x \<Rightarrow> x \<noteq> [])"

text \<open>A dictionary is the list of its items in the order of insertion.\<close>

fun dict_set :: "('k \<times> 'v) list \<Rightarrow> 'k \<Rightarrow> 'v \<Rightarrow> ('k \<times> 'v) list" where
  "dict_set [] k v = [(k, v)]"
| "dict_set ((k', v') # d) k v =
     (if k' = k then (k, v) # d else (k', v') # dict_set d k v)"

section \<open>XmlNode\<close>

definition decode_string :: "string option \<Rightarrow> string option" where
  "decode_string v =
     (case v of
        None \<Rightarrow> None
      | Some x \<Rightarrow>
          if x \<noteq> []
          then Some (fold (\<lambda>(escaped, original) x. replace x escaped original)
                          XML_REPLACEMENT_CHARS x)
          else Some x)"

definition set_value_property :: "XmlNode \<Rightarrow> string option \<Rightarrow> XmlNode" where
  "set_value_property n v = n\<lparr>val := decode_string v\<rparr>"

definition XmlNode_init ::
  "string \<Rightarrow> (string \<times> string) list option \<Rightarrow> addr list option \<Rightarrow> string option \<Rightarrow> XmlNode"
where
  "XmlNode_init tg attrs nds v =
     set_value_property
       \<lparr>tag = tg,
        attributes = (case attrs of None \<Rightarrow> [] | Some a \<Rightarrow> a),
        val = None,
        nodes = (case nds of None \<Rightarrow> [] | Some n \<Rightarrow> n)\<rparr>
       v"

text \<open>
  \<open>is_empty\<close> and \<open>nodes_are_empty\<close> call each other down the tree. The argument \<open>d\<close>
  is the depth of recursion that the interpreter still admits; a descent beyond it is a
  \<^verbatim>\<open>RecursionError\<close>.
\<close>

fun is_empty :: "store \<Rightarrow> nat \<Rightarrow> addr \<Rightarrow> error + bool"
  and nodes_are_empty_loop :: "store \<Rightarrow> nat \<Rightarrow> addr list \<Rightarrow> error + bool"
where
  "is_empty h 0 self = Inl RecursionError"
| "is_empty h (Suc d) self =
     (if truthy (val (h ! self)) \<or> 0 < length (attributes (h ! self)) then Inr False
      else if nodes (h ! self) = [] then Inr True
      else nodes_are_empty_loop h d (nodes (h ! self)))"
| "nodes_are_empty_loop h d [] = Inr True"
| "nodes_are_empty_loop h d (subnode # rest) =
     (case is_empty h d subnode of
        Inl e \<Rightarrow> Inl e
      | Inr b \<Rightarrow> if \<not> b then Inr False else nodes_are_empty_loop h d rest)"

definition nodes_are_empty :: "store \<Rightarrow> nat \<Rightarrow> addr \<Rightarrow> error + bool" where
  "nodes_are_empty h d self = nodes_are_empty_loop h d (nodes (h ! self))"

definition get_all_nodes :: "store \<Rightarrow> addr \<Rightarrow> string \<Rightarrow> addr list" where
  "get_all_nodes h self tg =
     filter (\<lambda>node. lower (tag (h ! node)) = lower tg) (nodes (h ! self))"

text \<open>
  The argument \<^verbatim>\<open>tag\<close> of the lookups is a string or a list of strings. A list is an
  object of the caller, which \<^verbatim>\<open>pop\<close> changes; the functions that take one return
  it as it is after the call. \<open>raise_none_error\<close> is the value of the global
  \<^verbatim>\<open>RAISE_NONE_ERROR\<close> at the time of the call.
\<close>

datatype tagarg = Str string | Lst "string list"

function get_first_node ::
  "bool \<Rightarrow> store \<Rightarrow> addr \<Rightarrow> tagarg \<Rightarrow> (error + addr option) \<times> tagarg"
where
  "get_first_node raise_none_error h self (Lst tg) =
     (if length tg > 1 then
        (let tmp_tag = hd tg;
             tg' = tl tg
         in case fst (get_first_node raise_none_error h self (Str tmp_tag)) of
              Inl e \<Rightarrow> (Inl e, Lst tg')
            | Inr None \<Rightarrow>
                if raise_none_error
                then (Inl (XmlException (Subnode_not_found tmp_tag (tag (h ! self)))), Lst tg')
                else (Inr None, Lst tg')
            | Inr (Some subnode) \<Rightarrow> get_first_node raise_none_error h subnode (Lst tg'))
      else if length tg = 1 then
        (fst (get_first_node raise_none_error h self (Str (hd tg))), Lst tg)
      else
        (if nodes (h ! self) = [] then Inr None else Inl AttributeError, Lst tg))"
| "get_first_node raise_none_error h self (Str tg) =
     (case get_all_nodes h self tg of
        [] \<Rightarrow> (Inr None, Str tg)
      | node # _ \<Rightarrow> (Inr (Some node), Str tg))"
  by pat_completeness auto
termination
  by (relation "measure (\<lambda>(r, h, self, tg). case tg of Str _ \<Rightarrow> 0 | Lst l \<Rightarrow> Suc (length l))")
     auto

declare get_first_node.simps [simp del]

fun index :: "addr list \<Rightarrow> addr \<Rightarrow> error + nat" where
  \<comment> \<open>\<^verbatim>\<open>list.index\<close>; nodes are compared by identity\<close>
  "index [] x = Inl ValueError"
| "index (y # ys) x =
     (if y = x then Inr 0
      else case index ys x of Inl e \<Rightarrow> Inl e | Inr i \<Rightarrow> Inr (Suc i))"

definition get_index :: "bool \<Rightarrow> store \<Rightarrow> addr \<Rightarrow> tagarg \<Rightarrow> error + nat option" where
  "get_index raise_none_error h self tg =
     (case tg of
        Lst _ \<Rightarrow> Inr None
      | Str _ \<Rightarrow>
          (case fst (get_first_node raise_none_error h self tg) of
             Inl e \<Rightarrow> Inl e
           | Inr None \<Rightarrow> Inr None
           | Inr (Some node) \<Rightarrow>
               (case index (nodes (h ! self)) node of
                  Inl e \<Rightarrow> Inl e
                | Inr i \<Rightarrow> Inr (Some i))))"

definition get_value :: "bool \<Rightarrow> store \<Rightarrow> addr \<Rightarrow> tagarg \<Rightarrow> (error + string option) \<times> tagarg" where
  "get_value raise_none_error h self tg =
     (case get_first_node raise_none_error h self tg of
        (Inl e, tg') \<Rightarrow> (Inl e, tg')
      | (Inr None, tg') \<Rightarrow> (Inr None, tg')
      | (Inr (Some node), tg') \<Rightarrow> (Inr (val (h ! node)), tg'))"

definition list_insert :: "'a list \<Rightarrow> nat \<Rightarrow> 'a \<Rightarrow> 'a list" where
  \<comment> \<open>\<^verbatim>\<open>list.insert\<close> at an index that is not negative\<close>
  "list_insert xs i x = take i xs @ x # drop i xs"

definition insert_helper ::
  "bool \<Rightarrow> store \<Rightarrow> addr \<Rightarrow> tagarg \<Rightarrow> addr \<Rightarrow> nat \<Rightarrow> (error + store) \<times> tagarg"
where
  "insert_helper raise_none_error h self tg node add =
     (let located =
            (case tg of
               Lst l \<Rightarrow>
                 if length l > 1 then
                   (let index_tag = last l;
                        l' = butlast l
                    in case get_first_node raise_none_error h self (Lst l') of
                         (Inl e, tg') \<Rightarrow> (Inl e, tg')
                       | (Inr parentnode, tg') \<Rightarrow> (Inr (Some (index_tag, parentnode)), tg'))
                 else if length l = 1 then (Inr (Some (hd l, Some self)), tg)
                 else (Inr None, tg)
             | Str t \<Rightarrow> (Inr (Some (t, Some self)), tg))
      in case located of
           (Inl e, tg') \<Rightarrow> (Inl e, tg')
         | (Inr None, tg') \<Rightarrow> (Inr h, tg')
         | (Inr (Some (index_tag, None)), tg') \<Rightarrow> (Inr h, tg')
         | (Inr (Some (index_tag, Some parentnode)), tg') \<Rightarrow>
             (case get_index raise_none_error h parentnode (Str index_tag) of
                Inl e \<Rightarrow> (Inl e, tg')
              | Inr None \<Rightarrow> (Inr h, tg')
              | Inr (Some i) \<Rightarrow>
                  (Inr (h[parentnode :=
                          (h ! parentnode)\<lparr>nodes := list_insert (nodes (h ! parentnode))
                                                                   (i + add) node\<rparr>]),
                   tg')))"

definition insert_before ::
  "bool \<Rightarrow> store \<Rightarrow> addr \<Rightarrow> tagarg \<Rightarrow> addr \<Rightarrow> (error + store) \<times> tagarg"
where
  "insert_before raise_none_error h self tg node =
     insert_helper raise_none_error h self tg node 0"

definition insert_after ::
  "bool \<Rightarrow> store \<Rightarrow> addr \<Rightarrow> tagarg \<Rightarrow> addr \<Rightarrow> (error + store) \<times> tagarg"
where
  "insert_after raise_none_error h self tg node =
     insert_helper raise_none_error h self tg node 1"

section \<open>XmlRoot\<close>

definition XmlRoot_init ::
  "string option \<Rightarrow> string option \<Rightarrow> string option \<Rightarrow> addr option \<Rightarrow> XmlRoot"
where
  "XmlRoot_init v enc sa rn =
     \<lparr>version = (if truthy v then (case v of Some x \<Rightarrow> x | None \<Rightarrow> ''1.0'') else ''1.0''),
      encoding = enc,
      standalone = sa,
      rootnode = rn\<rparr>"

definition XmlRoot_default :: XmlRoot where
  \<comment> \<open>\<^verbatim>\<open>XmlRoot()\<close>\<close>
  "XmlRoot_default = XmlRoot_init None (Some ''utf-8'') None None"

section \<open>XmlParser\<close>

text \<open>
  The state of a parser: its fields, the store of the nodes it reaches, and the lines it
  has printed. The three compiled patterns are constants.
\<close>

definition full_regex :: rexp where
  "full_regex = XML_SPE"

definition attr_regex :: rexp where
  "attr_regex = GetAttr"

definition tag_regex :: rexp where
  "tag_regex = Name"

record XmlParser =
  xml_string :: string
  tokens_processed :: "string list"
  tokens :: "string list"
  xml_root :: XmlRoot
  current_node :: "addr option"
  parent_nodes :: "addr list"
  objects :: store
  printed :: "string list list"

definition assert_lex :: "string list \<Rightarrow> string \<Rightarrow> error + unit" where
  "assert_lex toks xmlstring = (if concat toks = xmlstring then Inr () else Inl AssertionError)"

definition XmlParser_init :: "string \<Rightarrow> XmlRoot option \<Rightarrow> store \<Rightarrow> error + XmlParser" where
  "XmlParser_init xmlstring root h =
     (let toks = findall full_regex xmlstring
      in case assert_lex toks xmlstring of
           Inl e \<Rightarrow> Inl e
         | Inr _ \<Rightarrow>
             Inr \<lparr>xml_string = xmlstring,
                  tokens_processed = [],
                  tokens = toks,
                  xml_root = (case root of Some r \<Rightarrow> r | None \<Rightarrow> XmlRoot_default),
                  current_node = None,
                  parent_nodes = [],
                  objects = h,
                  printed = []\<rparr>)"

definition XmlParser_get_attributes :: "string \<Rightarrow> (string \<times> string) list" where
  "XmlParser_get_attributes string =
     (let attribute_list = findall2 attr_regex string
      in if attribute_list \<noteq> []
         then fold (\<lambda>attribute d. dict_set d (fst attribute) (snd attribute)) attribute_list []
         else [])"

definition get_position :: "XmlParser \<Rightarrow> nat \<times> nat" where
  "get_position p =
     (let processed_string = concat (tokens_processed p);
          lines = splitlines processed_string
      in if lines = [] then (0, 0) else (length lines, length (last lines)))"

definition get_tag :: "XmlParser \<Rightarrow> string \<Rightarrow> error + string" where
  "get_tag p string =
     (let tags = findall tag_regex string
      in if length tags = 0
         then (case get_position p of
                 (column, line) \<Rightarrow> Inl (XmlException (No_tag_name_found string column line)))
         else Inr (hd tags))"

definition process_procinstr :: "XmlParser \<Rightarrow> string \<Rightarrow> XmlParser" where
  "process_procinstr p token = p\<lparr>printed := printed p @ [[''PROCINSTR'', token]]\<rparr>"

definition process_xmldeclaration :: "XmlParser \<Rightarrow> string \<Rightarrow> XmlParser" where
  "process_xmldeclaration p token =
     (let attrs = XmlParser_get_attributes token;
          p1 = (case map_of attrs ''version'' of
                  Some v \<Rightarrow> p\<lparr>xml_root := (xml_root p)\<lparr>version := v\<rparr>\<rparr>
                | None \<Rightarrow> p);
          p2 = (case map_of attrs ''encoding'' of
                  Some v \<Rightarrow> p1\<lparr>xml_root := (xml_root p1)\<lparr>encoding := Some v\<rparr>\<rparr>
                | None \<Rightarrow> p1)
      in case map_of attrs ''standalone'' of
           Some v \<Rightarrow> p2\<lparr>xml_root := (xml_root p2)\<lparr>standalone := Some v\<rparr>\<rparr>
         | None \<Rightarrow> p2)"

definition process_startnode :: "XmlParser \<Rightarrow> string \<Rightarrow> error + XmlParser" where
  "process_startnode p token =
     (case get_tag p token of
        Inl e \<Rightarrow> Inl e
      | Inr tg \<Rightarrow>
          (let node = length (objects p);
               p1 = p\<lparr>objects := objects p @ [XmlNode_init tg None None None],
                       current_node := Some node\<rparr>;
               p2 = p1\<lparr>objects := (objects p1)
                         [node := (objects p1 ! node)\<lparr>attributes := XmlParser_get_attributes token\<rparr>]\<rparr>;
               p3 = (if length (parent_nodes p2) = 0
                     then p2\<lparr>xml_root := (xml_root p2)\<lparr>rootnode := Some node\<rparr>\<rparr>
                     else (let parent = last (parent_nodes p2)
                           in p2\<lparr>objects := (objects p2)
                                  [parent := (objects p2 ! parent)
                                     \<lparr>nodes := nodes (objects p2 ! parent) @ [node]\<rparr>]\<rparr>))
           in Inr (p3\<lparr>parent_nodes := parent_nodes p3 @ [node]\<rparr>)))"

definition process_endnode :: "XmlParser \<Rightarrow> string \<Rightarrow> error + XmlParser" where
  "process_endnode p token =
     (case get_tag p token of
        Inl e \<Rightarrow> Inl e
      | Inr tg \<Rightarrow>
          (case current_node p of
             None \<Rightarrow>
               (case get_position p of
                  (column, line) \<Rightarrow>
                    Inl (XmlException (Closing_node_but_no_open_node tg column line)))
           | Some cur \<Rightarrow>
               if tag (objects p ! cur) \<noteq> tg
               then (case get_position p of
                       (column, line) \<Rightarrow>
                         Inl (XmlException
                               (Closing_and_open_tag_do_not_match tg (tag (objects p ! cur))
                                  column line)))
               else if parent_nodes p = [] then Inl IndexError
               else (let p1 = p\<lparr>parent_nodes := butlast (parent_nodes p)\<rparr>
                     in Inr (p1\<lparr>current_node :=
                                   (if parent_nodes p1 \<noteq> [] then Some (last (parent_nodes p1))
                                    else None)\<rparr>))))"

definition process_token :: "XmlParser \<Rightarrow> string \<Rightarrow> error + XmlParser" where
  "process_token p token =
     (if startswith token ''<'' then
        (if startswith token ''<!--'' then Inr p
         else if startswith token ''<![CDATA'' then Inr p
         else if startswith token ''<!ELEMENT'' then Inr p
         else if startswith token ''<!ATTLIST'' then Inr p
         else if startswith token ''<!ENTITY'' then Inr p
         else if startswith token ''<!DOCTYPE'' then Inr p
         else if startswith token ''<!'' then Inr p
         else if startswith token ''<?xml'' then Inr (process_xmldeclaration p token)
         else if startswith token ''<?'' then Inr (process_procinstr p token)
         else if startswith token ''</'' then process_endnode p token
         else if endswith token ''/>'' then
           (case process_startnode p token of
              Inl e \<Rightarrow> Inl e
            | Inr p1 \<Rightarrow> process_endnode p1 token)
         else if endswith token ''>'' then process_startnode p token
         else Inr (p\<lparr>printed := printed p @ [[''error:'', token]]\<rparr>))
      else
        (case current_node p of
           None \<Rightarrow> Inr p
         | Some cur \<Rightarrow>
             if token \<noteq> [] \<and> \<not> isspace token
             then Inr (p\<lparr>objects := (objects p)
                            [cur := set_value_property (objects p ! cur) (Some token)]\<rparr>)
             else Inr p))"

fun parse_tokens :: "XmlParser \<Rightarrow> string list \<Rightarrow> error + XmlParser" where
  "parse_tokens p [] = Inr p"
| "parse_tokens p (token # rest) =
     (case process_token p token of
        Inl e \<Rightarrow> Inl e
      | Inr p1 \<Rightarrow> parse_tokens (p1\<lparr>tokens_processed := tokens_processed p1 @ [token]\<rparr>) rest)"

definition parse_xml :: "XmlParser \<Rightarrow> error + XmlParser" where
  \<comment> \<open>the state after the loop; the value returned is its \<open>xml_root\<close>\<close>
  "parse_xml p = parse_tokens p (tokens p)"

section \<open>XmlSerializer\<close>

definition encode_string :: "string \<Rightarrow> string" where
  "encode_string v =
     fold (\<lambda>(escaped, original) string. replace string original escaped)
          XML_REPLACEMENT_CHARS v"

fun attributes_loop :: "(string \<times> string) list \<Rightarrow> string \<Rightarrow> error + string" where
  "attributes_loop [] output = Inr output"
| "attributes_loop ((key, v) # items) output =
     (case map_of XML_REPLACEMENT_CHARS ''&quot;'' of
        None \<Rightarrow> Inl KeyError
      | Some quot \<Rightarrow>
          attributes_loop items
            (output @ key @ [CHR ''='', CHR 0x22] @ replace v quot ''&quot;'' @ [CHR 0x22, CHR '' '']))"

definition attributes_to_xml :: "(string \<times> string) list \<Rightarrow> error + string" where
  "attributes_to_xml attrs = (if attrs = [] then Inr [] else attributes_loop attrs [])"

text \<open>
  \<open>to_xml\<close> renders a node and, through \<open>to_xml_nodes\<close>, its children one level deeper;
  \<open>d\<close> is the depth of recursion still admitted, as for \<open>is_empty\<close>.
\<close>

fun to_xml :: "store \<Rightarrow> nat \<Rightarrow> addr \<Rightarrow> nat \<Rightarrow> error + string"
  and to_xml_nodes :: "store \<Rightarrow> nat \<Rightarrow> addr list \<Rightarrow> nat \<Rightarrow> string \<Rightarrow> error + string"
where
  "to_xml h 0 node intendation = Inl RecursionError"
| "to_xml h (Suc d) node intendation =
     (let intendationString = replicate intendation (CHR 0x09)
      in case is_empty h d node of
           Inl e \<Rightarrow> Inl e
         | Inr True \<Rightarrow> Inr []
         | Inr False \<Rightarrow>
             (case (if attributes (h ! node) \<noteq> []
                    then (case attributes_to_xml (attributes (h ! node)) of
                            Inl e \<Rightarrow> Inl e
                          | Inr a \<Rightarrow> Inr (intendationString @ ''<'' @ tag (h ! node) @ '' '' @ a))
                    else Inr (intendationString @ ''<'' @ tag (h ! node))) of
                Inl e \<Rightarrow> Inl e
              | Inr xml \<Rightarrow>
                  (case (if nodes (h ! node) = [] then Inr True
                         else nodes_are_empty h d node) of
                     Inl e \<Rightarrow> Inl e
                   | Inr no_nodes \<Rightarrow>
                       if no_nodes \<and> \<not> truthy (val (h ! node)) then Inr (xml @ ''/>'')
                       else
                         (case (if nodes (h ! node) \<noteq> []
                                then (case to_xml_nodes h d (nodes (h ! node)) (intendation + 1)
                                             (xml @ ''>'') of
                                        Inl e \<Rightarrow> Inl e
                                      | Inr x \<Rightarrow> Inr (x @ [CHR 0x0A] @ intendationString))
                                else if truthy (val (h ! node))
                                then Inr (xml @ ''>'' @
                                          encode_string (case val (h ! node) of
                                                           Some x \<Rightarrow> x | None \<Rightarrow> []))
                                else Inr (xml @ ''>'')) of
                            Inl e \<Rightarrow> Inl e
                          | Inr x \<Rightarrow> Inr (x @ ''</'' @ tag (h ! node) @ ''>'')))))"
| "to_xml_nodes h d [] intendation xml = Inr xml"
| "to_xml_nodes h d (newNode # rest) intendation xml =
     (case to_xml h d newNode intendation of
        Inl e \<Rightarrow> Inl e
      | Inr x \<Rightarrow> to_xml_nodes h d rest intendation (xml @ [CHR 0x0A] @ x))"

record XmlSerializer =
  serializer_xml_root :: XmlRoot
  serializer_xml_string :: string

definition XmlSerializer_init :: "XmlRoot \<Rightarrow> XmlSerializer" where
  "XmlSerializer_init root = \<lparr>serializer_xml_root = root, serializer_xml_string = []\<rparr>"

definition serialize_xml :: "store \<Rightarrow> nat \<Rightarrow> XmlSerializer \<Rightarrow> error + string \<times> XmlSerializer" where
  "serialize_xml h d self =
     (let root = serializer_xml_root self;
          a1 = (if version root \<noteq> [] then dict_set [] ''version'' (version root) else []);
          a2 = (if truthy (encoding root)
                then dict_set a1 ''encoding'' (case encoding root of Some x \<Rightarrow> x | None \<Rightarrow> [])
                else a1);
          a3 = (if truthy (standalone root)
                then dict_set a2 ''standalone'' (case standalone root of Some x \<Rightarrow> x | None \<Rightarrow> [])
                else a2)
      in case (if length a3 > 0
               then (case attributes_to_xml a3 of
                       Inl e \<Rightarrow> Inl e
                     | Inr a \<Rightarrow> Inr (self\<lparr>serializer_xml_string := ''<?xml '' @ a @ '' ?>'' @ [CHR 0x0A]\<rparr>))
               else Inr self) of
           Inl e \<Rightarrow> Inl e
         | Inr self1 \<Rightarrow>
             (case rootnode root of
                None \<Rightarrow> Inl AttributeError
              | Some node \<Rightarrow>
                  (case to_xml h d node 0 of
                     Inl e \<Rightarrow> Inl e
                   | Inr x \<Rightarrow>
                       (let self2 = self1\<lparr>serializer_xml_string := serializer_xml_string self1 @ x\<rparr>
                        in Inr (serializer_xml_string self2, self2)))))"

section \<open>XmlRoot: from_xml and to_xml\<close>

definition from_xml :: "XmlRoot \<Rightarrow> store \<Rightarrow> string \<Rightarrow> error + XmlRoot \<times> store" where
  "from_xml self h xmlstring =
     (case XmlParser_init xmlstring (Some self) h of
        Inl e \<Rightarrow> Inl e
      | Inr parser \<Rightarrow>
          (case parse_xml parser of
             Inl e \<Rightarrow> Inl e
           | Inr parser' \<Rightarrow> Inr (xml_root parser', objects parser')))"

definition XmlRoot_to_xml :: "store \<Rightarrow> nat \<Rightarrow> XmlRoot \<Rightarrow> error + string" where
  "XmlRoot_to_xml h d self =
     (case serialize_xml h d (XmlSerializer_init self) of
        Inl e \<Rightarrow> Inl e
      | Inr (x, _) \<Rightarrow> Inr x)"

section \<open>The matcher consumes a prefix of its input\<close>

lemma one_char_suffix:
  "m' \<in> set (one_char p m) \<Longrightarrow> \<exists>c. snd m = c # snd m'"
  by (cases "(p, m)" rule: one_char.cases) (auto split: if_splits)

lemma one_char_suffix': "m' \<in> set (one_char p m) \<Longrightarrow> suffix (snd m') (snd m)"
  using one_char_suffix[of m' p m] by (auto simp: suffix_def)

lemma ms_suffix: "m' \<in> set (ms r m) \<Longrightarrow> suffix (snd m') (snd m)"
proof (induction r m arbitrary: m' rule: ms.induct)
  case (1 a st) then show ?case by (simp add: one_char_suffix')
next
  case (2 its st) then show ?case by (simp add: one_char_suffix')
next
  case (3 its st) then show ?case by (simp add: one_char_suffix')
next
  case (4 st) then show ?case by (simp add: one_char_suffix')
next
  case (5 st) then show ?case by (simp add: one_char_suffix')
next
  case (6 st) then show ?case by simp
next
  case (7 a b st)
  from "7.prems" obtain x where x: "x \<in> set (ms a st)" and m': "m' \<in> set (ms b x)"
    by auto
  from "7.IH"(1)[OF x] "7.IH"(2)[OF x m'] show ?case
    by (rule suffix_order.trans[rotated])
next
  case (8 a b st)
  from "8.prems" have "m' \<in> set (ms a st) \<or> m' \<in> set (ms b st)" by simp
  then show ?case using "8.IH" by blast
next
  case (9 a g s)
  show ?case
  proof (cases "m' = (g, s)")
    case True
    then show ?thesis by simp
  next
    case False
    with "9.prems"[unfolded ms.simps(9)[of a g s]]
    obtain g' t where x: "(g', t) \<in> set (ms a (g, s))"
      and lt: "length t < length s" and m': "m' \<in> set (ms (Star a) (g', t))"
      by (auto split: if_splits simp del: ms.simps)
    from "9.IH"(1)[OF x] "9.IH"(2)[OF x refl lt m'] show ?thesis
      by (auto intro: suffix_order.trans)
  qed
next
  case (10 a g s)
  show ?case
  proof (cases "m' = (g, s)")
    case True
    then show ?thesis by simp
  next
    case False
    with "10.prems"[unfolded ms.simps(10)[of a g s]]
    obtain g' t where x: "(g', t) \<in> set (ms a (g, s))"
      and lt: "length t < length s" and m': "m' \<in> set (ms (LStar a) (g', t))"
      by (auto split: if_splits simp del: ms.simps)
    from "10.IH"(1)[OF x] "10.IH"(2)[OF x refl lt m'] show ?thesis
      by (auto intro: suffix_order.trans)
  qed
next
  case (11 i a g s)
  from "11.prems" obtain x where x: "x \<in> set (ms a (g, s))" and m': "snd m' = snd x"
    by auto
  from "11.IH"[OF x] m' show ?case by simp
qed

lemma ms_length_le: "m' \<in> set (ms r m) \<Longrightarrow> length (snd m') \<le> length (snd m)"
  by (drule ms_suffix) (rule suffix_length_le)

lemma one_char_length: "m' \<in> set (one_char p m) \<Longrightarrow> length (snd m') < length (snd m)"
  using one_char_suffix[of m' p m] by auto

lemma ms_Seq_consumes:
  assumes "m' \<in> set (ms (Seq a b) m)"
    and "\<And>x. x \<in> set (ms a m) \<Longrightarrow> length (snd x) < length (snd m)"
  shows "length (snd m') < length (snd m)"
proof -
  from assms(1) obtain x where x: "x \<in> set (ms a m)" and m': "m' \<in> set (ms b x)"
    by auto
  from ms_length_le[OF m'] assms(2)[OF x] show ?thesis by simp
qed

lemma XML_SPE_consumes:
  assumes "m' \<in> set (ms XML_SPE m)"
  shows "length (snd m') < length (snd m)"
proof -
  from assms have "m' \<in> set (ms TextSE m) \<or> m' \<in> set (ms MarkupSPE m)"
    by (simp add: XML_SPE_def)
  then show ?thesis
  proof
    assume "m' \<in> set (ms TextSE m)"
    then show ?thesis
      unfolding TextSE_def Many1_def
      by (rule ms_Seq_consumes) (simp add: one_char_length)
  next
    assume "m' \<in> set (ms MarkupSPE m)"
    then show ?thesis
      unfolding MarkupSPE_def
      by (rule ms_Seq_consumes) (simp add: one_char_length)
  qed
qed

lemma ms_Star_nonempty: "ms (Star a) m \<noteq> []"
  by (cases m) simp

lemma ms_Opt_nonempty: "ms (Opt a) m \<noteq> []"
  by (simp add: Opt_def)

lemma XML_SPE_matches:
  assumes "s \<noteq> []"
  shows "ms XML_SPE (g, s) \<noteq> []"
proof -
  from assms obtain c cs where s: "s = c # cs" by (cases s) auto
  show ?thesis
  proof (cases "c = CHR ''<''")
    case True
    then have "ms MarkupSPE (g, s) \<noteq> []"
      by (simp add: s MarkupSPE_def ms_Opt_nonempty)
    then show ?thesis by (simp add: XML_SPE_def)
  next
    case False
    then have "ms TextSE (g, s) \<noteq> []"
      by (simp add: s TextSE_def Many1_def ms_Star_nonempty)
    then show ?thesis by (simp add: XML_SPE_def)
  qed
qed

lemma scan_lossless:
  assumes matches: "\<And>s. s \<noteq> [] \<Longrightarrow> ms r ([], s) \<noteq> []"
    and consumes: "\<And>s m'. m' \<in> set (ms r ([], s)) \<Longrightarrow> length (snd m') < length s"
  shows "concat (map fst (scan r adv s)) = s"
proof (induction "length s" arbitrary: s adv rule: less_induct)
  case less
  have all: "filter (admissible adv s) (ms r ([], s)) = ms r ([], s)"
    using consumes by (auto simp: admissible_def filter_id_conv)
  show ?case
  proof (cases s)
    case Nil
    have "ms r ([], []) = []"
    proof (cases "ms r ([], [])")
      case (Cons x xs)
      then have "x \<in> set (ms r ([], []))" by simp
      from consumes[OF this] show ?thesis by simp
    qed simp
    then show ?thesis
      by (subst scan.simps) (simp add: Nil admissible_def)
  next
    case (Cons c cs)
    then have "s \<noteq> []" by simp
    from matches[OF this] obtain g t rest where m: "ms r ([], s) = (g, t) # rest"
      by (cases "ms r ([], s)") auto
    then have mem: "(g, t) \<in> set (ms r ([], s))" by simp
    from consumes[OF mem] have lt: "length t < length s" by simp
    from ms_suffix[OF mem] have "take (length s - length t) s @ t = s"
      by (auto simp: suffix_def)
    moreover from less[OF lt] have "concat (map fst (scan r False t)) = t" .
    moreover from all m
    have "filter (admissible adv s) (ms r ([], s)) = (g, t) # rest" by simp
    ultimately show ?thesis
      by (subst scan.simps) (simp add: lt)
  qed
qed

section \<open>The lexer loses nothing\<close>

text \<open>
  C2. For every input string, the tokens that the lexer emits (the items that
  \<^verbatim>\<open>findall\<close> of the pattern \<open>XML_SPE\<close> returns), concatenated in order, are the input
  string. The constructor of the parser makes this check after the tokenization and
  raises \<^verbatim>\<open>AssertionError\<close> when it fails; since the check never fails, the constructor
  always returns a parser, whose tokens are those of the lexer.
\<close>

theorem lexer_lossless:
  "concat (findall XML_SPE s) = s
   \<and> (concat toks = s \<or> assert_lex toks s = Inl AssertionError)
   \<and> (\<exists>p. XmlParser_init s root h = Inr p \<and> tokens p = findall XML_SPE s
            \<and> concat (tokens p) = s)"
proof -
  have lossless: "concat (findall XML_SPE s) = s"
    unfolding findall_def
    by (rule scan_lossless) (auto simp: XML_SPE_matches dest: XML_SPE_consumes)
  have check: "concat toks = s \<or> assert_lex toks s = Inl AssertionError"
    by (simp add: assert_lex_def)
  from lossless have "assert_lex (findall XML_SPE s) s = Inr ()"
    by (simp add: assert_lex_def)
  then have "\<exists>p. XmlParser_init s root h = Inr p \<and> tokens p = findall XML_SPE s
                 \<and> concat (tokens p) = s"
    using lossless by (simp add: XmlParser_init_def full_regex_def Let_def)
  with lossless check show ?thesis by blast
qed

section \<open>Escaping\<close>

text \<open>
  C1. Decoding the encoding of a string built from the five reserved characters should
  give the string back. The theorem evaluates the code at the string that holds one
  double quote: the encoding pass replaces the quote by \<^verbatim>\<open>&quot;\<close> and then, in the
  last step of the same pass, the ampersand it has just written by \<^verbatim>\<open>&amp;\<close>; decoding
  the result gives \<^verbatim>\<open>&quot;\<close>, which is not the string encoded.
\<close>

theorem encode_string_reencodes_ampersand:
  \<open>encode_string ''"'' = ''&amp;quot;''
   \<and> decode_string (Some (encode_string ''"'')) = Some ''&quot;''
   \<and> decode_string (Some (encode_string ''"'')) \<noteq> Some ''"''\<close>
  by code_simp

section \<open>End tags\<close>

lemma not_startswith_longer:
  "\<not> startswith t q \<Longrightarrow> prefix q q' \<Longrightarrow> \<not> startswith t q'"
  by (auto simp: startswith_def dest: prefix_order.trans)

lemma end_tag_dispatch:
  assumes "startswith token ''</''"
  shows "process_token p token = process_endnode p token"
proof -
  from assms obtain t where t: "token = CHR ''<'' # CHR ''/'' # t"
    by (auto simp: startswith_def prefix_def)
  show ?thesis
    by (simp add: process_token_def startswith_def t)
qed

lemma endnode_no_open_node:
  assumes "get_tag p token = Inr tg" "current_node p = None"
  shows "process_endnode p token =
           Inl (XmlException (Closing_node_but_no_open_node tg (fst (get_position p))
                                (snd (get_position p))))"
  using assms by (simp add: process_endnode_def split: prod.splits)

lemma endnode_other_tag:
  assumes "get_tag p token = Inr tg" "current_node p = Some cur" "tag (objects p ! cur) \<noteq> tg"
  shows "process_endnode p token =
           Inl (XmlException (Closing_and_open_tag_do_not_match tg (tag (objects p ! cur))
                                (fst (get_position p)) (snd (get_position p))))"
  using assms by (simp add: process_endnode_def split: prod.splits)

text \<open>
  C5. Parsing fails with an \<^verbatim>\<open>XmlException\<close> about the closing tag whenever an end tag
  (a token that starts with \<^verbatim>\<open></\<close>, whose name has been extracted) is met while no node
  is open, or while the node that is open has another tag: the loop over the tokens stops
  there with the message "Closing node ... found, but no open node" in the first case and
  "Closing node tag ... and open node tag ... do not match" in the second, whatever tokens
  follow. In particular parsing \<^verbatim>\<open><a><b></a>\<close> fails with the second message.
\<close>

theorem mismatched_close_fails:
  \<open>(startswith token ''</'' \<and> get_tag p token = Inr tg \<and> current_node p = None
      \<longrightarrow> parse_tokens p (token # rest) =
            Inl (XmlException (Closing_node_but_no_open_node tg (fst (get_position p))
                                 (snd (get_position p)))))
   \<and> (startswith token ''</'' \<and> get_tag p token = Inr tg \<and> current_node p = Some cur
        \<and> tag (objects p ! cur) \<noteq> tg
      \<longrightarrow> parse_tokens p (token # rest) =
            Inl (XmlException (Closing_and_open_tag_do_not_match tg (tag (objects p ! cur))
                                 (fst (get_position p)) (snd (get_position p)))))
   \<and> from_xml XmlRoot_default [] ''<a><b></a>'' =
       Inl (XmlException (Closing_and_open_tag_do_not_match ''a'' ''b'' 1 6))\<close>
proof (intro conjI impI)
  assume a: \<open>startswith token ''</'' \<and> get_tag p token = Inr tg \<and> current_node p = None\<close>
  then show \<open>parse_tokens p (token # rest) =
      Inl (XmlException (Closing_node_but_no_open_node tg (fst (get_position p))
                           (snd (get_position p))))\<close>
    by (simp add: end_tag_dispatch endnode_no_open_node)
next
  assume a: \<open>startswith token ''</'' \<and> get_tag p token = Inr tg \<and> current_node p = Some cur
        \<and> tag (objects p ! cur) \<noteq> tg\<close>
  then show \<open>parse_tokens p (token # rest) =
      Inl (XmlException (Closing_and_open_tag_do_not_match tg (tag (objects p ! cur))
                           (fst (get_position p)) (snd (get_position p))))\<close>
    by (simp add: end_tag_dispatch endnode_other_tag)
next
  show \<open>from_xml XmlRoot_default [] ''<a><b></a>'' =
       Inl (XmlException (Closing_and_open_tag_do_not_match ''a'' ''b'' 1 6))\<close>
    by code_simp
qed

theorem mismatched_close_fails_witness:
  \<open>startswith ''</b>'' ''</''
   \<and> get_tag \<lparr>xml_string = ''<a></b>'', tokens_processed = [''<a>''],
               tokens = [''<a>'', ''</b>''], xml_root = XmlRoot_default\<lparr>rootnode := Some 0\<rparr>,
               current_node = Some 0, parent_nodes = [0],
               objects = [\<lparr>tag = ''a'', attributes = [], val = None, nodes = []\<rparr>],
               printed = []\<rparr> ''</b>'' = Inr ''b''
   \<and> parse_tokens \<lparr>xml_string = ''<a></b>'', tokens_processed = [''<a>''],
               tokens = [''<a>'', ''</b>''], xml_root = XmlRoot_default\<lparr>rootnode := Some 0\<rparr>,
               current_node = Some 0, parent_nodes = [0],
               objects = [\<lparr>tag = ''a'', attributes = [], val = None, nodes = []\<rparr>],
               printed = []\<rparr> [''</b>''] =
       Inl (XmlException (Closing_and_open_tag_do_not_match ''b'' ''a'' 1 3))
   \<and> get_tag \<lparr>xml_string = ''</b>'', tokens_processed = [],
               tokens = [''</b>''], xml_root = XmlRoot_default,
               current_node = None, parent_nodes = [], objects = [], printed = []\<rparr> ''</b>''
       = Inr ''b''
   \<and> parse_tokens \<lparr>xml_string = ''</b>'', tokens_processed = [],
               tokens = [''</b>''], xml_root = XmlRoot_default,
               current_node = None, parent_nodes = [], objects = [], printed = []\<rparr> [''</b>''] =
       Inl (XmlException (Closing_node_but_no_open_node ''b'' 0 0))\<close>
proof -
  let ?p = \<open>\<lparr>xml_string = ''<a></b>'', tokens_processed = [''<a>''],
               tokens = [''<a>'', ''</b>''], xml_root = XmlRoot_default\<lparr>rootnode := Some 0\<rparr>,
               current_node = Some 0, parent_nodes = [0],
               objects = [\<lparr>tag = ''a'', attributes = [], val = None, nodes = []\<rparr>],
               printed = []\<rparr>\<close>
  let ?q = \<open>\<lparr>xml_string = ''</b>'', tokens_processed = [],
               tokens = [''</b>''], xml_root = XmlRoot_default,
               current_node = None, parent_nodes = [], objects = [], printed = []\<rparr>\<close>
  have s: \<open>startswith ''</b>'' ''</''\<close> by (simp add: startswith_def)
  have g: \<open>get_tag ?p ''</b>'' = Inr ''b''\<close> by code_simp
  have g': \<open>get_tag ?q ''</b>'' = Inr ''b''\<close> by code_simp
  have pos: \<open>get_position ?p = (1, 3)\<close> by code_simp
  have pos': \<open>get_position ?q = (0, 0)\<close> by code_simp
  note m = mismatched_close_fails[of \<open>''</b>''\<close> _ \<open>''b''\<close> \<open>[]\<close> 0]
  from m[of ?p] s g
  have 1: \<open>parse_tokens ?p [''</b>''] =
       Inl (XmlException (Closing_and_open_tag_do_not_match ''b'' ''a'' 1 3))\<close>
    by (simp add: pos)
  from m[of ?q] s g'
  have 2: \<open>parse_tokens ?q [''</b>''] = Inl (XmlException (Closing_node_but_no_open_node ''b'' 0 0))\<close>
    by (simp add: pos')
  from s g g' 1 2 show ?thesis by blast
qed

section \<open>Self-closing tags\<close>

lemma self_closing_dispatch:
  assumes "startswith token ''<''" "\<not> startswith token ''<!''" "\<not> startswith token ''<?''"
    "\<not> startswith token ''</''" "endswith token ''/>''"
  shows "process_token p token =
           (case process_startnode p token of
              Inl e \<Rightarrow> Inl e
            | Inr p1 \<Rightarrow> process_endnode p1 token)"
proof -
  have "\<not> startswith token ''<!--''" "\<not> startswith token ''<![CDATA''"
    "\<not> startswith token ''<!ELEMENT''" "\<not> startswith token ''<!ATTLIST''"
    "\<not> startswith token ''<!ENTITY''" "\<not> startswith token ''<!DOCTYPE''"
    "\<not> startswith token ''<?xml''"
    using not_startswith_longer[OF assms(2)] not_startswith_longer[OF assms(3)]
    by simp_all
  with assms show ?thesis
    by (simp add: process_token_def)
qed

lemma get_tag_state: "get_tag p token = Inr tg \<Longrightarrow> get_tag p' token = Inr tg"
  by (auto simp: get_tag_def Let_def split: if_splits prod.splits)

lemma tag_update_nodes: "tag (xs[i := (xs ! i)\<lparr>nodes := ns\<rparr>] ! j) = tag (xs ! j)"
  by (cases "i < length xs"; cases "i = j") (simp_all add: list_update_beyond)

lemma startnode_result:
  assumes "get_tag p token = Inr tg"
  shows "\<exists>p1. process_startnode p token = Inr p1
           \<and> parent_nodes p1 = parent_nodes p @ [length (objects p)]
           \<and> current_node p1 = Some (length (objects p))
           \<and> length (objects p1) = Suc (length (objects p))
           \<and> tag (objects p1 ! length (objects p)) = tg
           \<and> tokens_processed p1 = tokens_processed p"
  using assms
  by (simp add: process_startnode_def Let_def XmlNode_init_def set_value_property_def
      decode_string_def tag_update_nodes)

text \<open>
  What the parser does to the children of a node that is neither on the stack of open
  nodes nor new: nothing, whatever tokens it reads.
\<close>

lemma nodes_update_val:
  "nodes (xs[i := set_value_property (xs ! i) v] ! j) = nodes (xs ! j)"
  by (cases "i < length xs"; cases "i = j")
     (simp_all add: list_update_beyond set_value_property_def)

lemma startnode_frame:
  assumes "process_startnode p token = Inr p1" "n < length (objects p)"
    "n \<notin> set (parent_nodes p)"
  shows "n < length (objects p1) \<and> n \<notin> set (parent_nodes p1)
         \<and> nodes (objects p1 ! n) = nodes (objects p ! n)"
proof (cases "get_tag p token")
  case (Inl e)
  with assms(1) show ?thesis by (simp add: process_startnode_def)
next
  case (Inr tg)
  have ne: "parent_nodes p \<noteq> [] \<Longrightarrow> last (parent_nodes p) \<noteq> n"
    using assms(3) last_in_set by metis
  from assms(1) Inr
  have o: "objects p1 =
             (if parent_nodes p = []
              then (objects p @ [XmlNode_init tg None None None])
                     [length (objects p) :=
                        ((objects p @ [XmlNode_init tg None None None]) ! length (objects p))
                          \<lparr>attributes := XmlParser_get_attributes token\<rparr>]
              else ((objects p @ [XmlNode_init tg None None None])
                     [length (objects p) :=
                        ((objects p @ [XmlNode_init tg None None None]) ! length (objects p))
                          \<lparr>attributes := XmlParser_get_attributes token\<rparr>])
                     [last (parent_nodes p) :=
                        (((objects p @ [XmlNode_init tg None None None])
                           [length (objects p) :=
                              ((objects p @ [XmlNode_init tg None None None]) ! length (objects p))
                                \<lparr>attributes := XmlParser_get_attributes token\<rparr>])
                          ! last (parent_nodes p))
                          \<lparr>nodes := nodes (((objects p @ [XmlNode_init tg None None None])
                               [length (objects p) :=
                                  ((objects p @ [XmlNode_init tg None None None]) ! length (objects p))
                                    \<lparr>attributes := XmlParser_get_attributes token\<rparr>])
                              ! last (parent_nodes p)) @ [length (objects p)]\<rparr>])"
    and pn: "parent_nodes p1 = parent_nodes p @ [length (objects p)]"
    by (auto simp: process_startnode_def Let_def)
  from o ne assms(2) have "n < length (objects p1)" "nodes (objects p1 ! n) = nodes (objects p ! n)"
    by (simp_all add: nth_append split: if_splits)
  moreover from pn assms(2,3) have "n \<notin> set (parent_nodes p1)" by simp
  ultimately show ?thesis by simp
qed

lemma endnode_frame:
  assumes "process_endnode p token = Inr p'" "n < length (objects p)"
    "n \<notin> set (parent_nodes p)"
  shows "n < length (objects p') \<and> n \<notin> set (parent_nodes p')
         \<and> nodes (objects p' ! n) = nodes (objects p ! n)"
proof -
  have "\<forall>q. process_endnode p token = Inr q
           \<longrightarrow> objects q = objects p \<and> parent_nodes q = butlast (parent_nodes p)"
    by (simp add: process_endnode_def Let_def
        split: sum.splits option.splits if_splits prod.splits)
  with assms(1) have "objects p' = objects p \<and> parent_nodes p' = butlast (parent_nodes p)"
    by blast
  with assms(2,3) show ?thesis
    by (auto dest: in_set_butlastD)
qed

lemma token_frame:
  assumes "process_token p token = Inr p'" "n < length (objects p)"
    "n \<notin> set (parent_nodes p)"
  shows "n < length (objects p') \<and> n \<notin> set (parent_nodes p')
         \<and> nodes (objects p' ! n) = nodes (objects p ! n)"
proof (cases "startswith token ''<''")
  case False
  with assms show ?thesis
    by (auto simp: process_token_def nodes_update_val split: option.splits if_splits)
next
  case True
  from assms(1) True
  have "p' = p
      \<or> p' = process_xmldeclaration p token
      \<or> p' = process_procinstr p token
      \<or> process_endnode p token = Inr p'
      \<or> (\<exists>p1. process_startnode p token = Inr p1 \<and> process_endnode p1 token = Inr p')
      \<or> process_startnode p token = Inr p'
      \<or> p' = p\<lparr>printed := printed p @ [[''error:'', token]]\<rparr>"
    by (simp add: process_token_def split: if_splits sum.splits)
  then consider (skip) "p' = p"
    | (decl) "p' = process_xmldeclaration p token"
    | (pi) "p' = process_procinstr p token"
    | (endt) "process_endnode p token = Inr p'"
    | (self) p1 where "process_startnode p token = Inr p1" "process_endnode p1 token = Inr p'"
    | (start) "process_startnode p token = Inr p'"
    | (err) "p' = p\<lparr>printed := printed p @ [[''error:'', token]]\<rparr>"
    by blast
  then show ?thesis
  proof cases
    case skip
    with assms show ?thesis by simp
  next
    case decl
    with assms show ?thesis
      by (simp add: process_xmldeclaration_def Let_def split: option.splits)
  next
    case pi
    with assms show ?thesis by (simp add: process_procinstr_def)
  next
    case endt
    from endnode_frame[OF this assms(2,3)] show ?thesis .
  next
    case self
    from startnode_frame[OF self(1) assms(2,3)]
    have "n < length (objects p1)" "n \<notin> set (parent_nodes p1)"
      "nodes (objects p1 ! n) = nodes (objects p ! n)" by simp_all
    with endnode_frame[OF self(2), of n] show ?thesis by simp
  next
    case start
    from startnode_frame[OF this assms(2,3)] show ?thesis .
  next
    case err
    with assms show ?thesis by simp
  qed
qed

lemma parse_tokens_frame:
  assumes "parse_tokens p rest = Inr p'" "n < length (objects p)"
    "n \<notin> set (parent_nodes p)"
  shows "nodes (objects p' ! n) = nodes (objects p ! n)"
  using assms
proof (induction rest arbitrary: p)
  case Nil
  then show ?case by simp
next
  case (Cons token rest)
  from Cons.prems(1) obtain p1 where p1: "process_token p token = Inr p1"
    and r: "parse_tokens (p1\<lparr>tokens_processed := tokens_processed p1 @ [token]\<rparr>) rest = Inr p'"
    by (auto split: sum.splits)
  from token_frame[OF p1 Cons.prems(2,3)]
  have f: "n < length (objects p1)" "n \<notin> set (parent_nodes p1)"
    "nodes (objects p1 ! n) = nodes (objects p ! n)" by simp_all
  from Cons.IH[OF r] f show ?case by simp
qed

lemma self_closing_result:
  assumes g: "get_tag p token = Inr tg"
    and inv: "list_all (\<lambda>a. a < length (objects p)) (parent_nodes p)"
  shows "\<exists>p1 p'. process_startnode p token = Inr p1 \<and> process_endnode p1 token = Inr p'
           \<and> parent_nodes p' = parent_nodes p
           \<and> current_node p' =
               (if parent_nodes p = [] then None else Some (last (parent_nodes p)))
           \<and> length (objects p') = Suc (length (objects p))
           \<and> objects p' ! length (objects p) =
               \<lparr>tag = tg, attributes = XmlParser_get_attributes token, val = None, nodes = []\<rparr>"
proof -
  from g obtain p1 where s: "process_startnode p token = Inr p1"
    by (auto simp: process_startnode_def Let_def)
  have lt: "parent_nodes p \<noteq> [] \<Longrightarrow> last (parent_nodes p) < length (objects p)"
    using inv last_in_set[of "parent_nodes p"] by (auto simp: list_all_iff)
  from s g lt have new:
    "objects p1 ! length (objects p) =
       \<lparr>tag = tg, attributes = XmlParser_get_attributes token, val = None, nodes = []\<rparr>"
    and len: "length (objects p1) = Suc (length (objects p))"
    and pn: "parent_nodes p1 = parent_nodes p @ [length (objects p)]"
    and cur: "current_node p1 = Some (length (objects p))"
    by (auto simp: process_startnode_def Let_def XmlNode_init_def set_value_property_def
        decode_string_def nth_append)
  from get_tag_state[OF g] have g1: "get_tag p1 token = Inr tg" .
  define p' where "p' = p1\<lparr>parent_nodes := parent_nodes p,
      current_node := (if parent_nodes p = [] then None else Some (last (parent_nodes p)))\<rparr>"
  from g1 new pn cur have e: "process_endnode p1 token = Inr p'"
    by (simp add: process_endnode_def Let_def p'_def)
  from s e new len show ?thesis
    by (intro exI[of _ p1] exI[of _ p']) (simp add: p'_def)
qed

text \<open>
  C6. Parsing \<^verbatim>\<open><a/>\<close> and parsing \<^verbatim>\<open><a></a>\<close> give the same document: a root node
  with tag \<^verbatim>\<open>a\<close>, no attributes, no value and no children. A self-closing token (one
  that reaches the branch for \<^verbatim>\<open>/>\<close> in the loop, with a name that can be extracted) is
  handled as the start tag followed at once by the end tag on the same token: in a state
  whose stack holds addresses of the store, the step succeeds, the stack of open nodes is
  afterwards what it was before, the current node is its top again, the new node has the
  token's tag and attributes and no children, and no token read later appends a child to
  it.
\<close>

theorem self_closing_equivalence:
  \<open>from_xml XmlRoot_default [] ''<a/>'' =
      Inr (\<lparr>version = ''1.0'', encoding = Some ''utf-8'', standalone = None, rootnode = Some 0\<rparr>,
           [\<lparr>tag = ''a'', attributes = [], val = None, nodes = []\<rparr>])
   \<and> from_xml XmlRoot_default [] ''<a></a>'' =
      Inr (\<lparr>version = ''1.0'', encoding = Some ''utf-8'', standalone = None, rootnode = Some 0\<rparr>,
           [\<lparr>tag = ''a'', attributes = [], val = None, nodes = []\<rparr>])
   \<and> (startswith token ''<'' \<and> \<not> startswith token ''<!'' \<and> \<not> startswith token ''<?''
        \<and> \<not> startswith token ''</'' \<and> endswith token ''/>''
        \<and> get_tag p token = Inr tg
        \<and> list_all (\<lambda>a. a < length (objects p)) (parent_nodes p)
      \<longrightarrow> (\<exists>p1 p'. process_startnode p token = Inr p1 \<and> process_endnode p1 token = Inr p'
             \<and> process_token p token = Inr p'
             \<and> parent_nodes p' = parent_nodes p
             \<and> current_node p' =
                 (if parent_nodes p = [] then None else Some (last (parent_nodes p)))
             \<and> objects p' ! length (objects p) =
                 \<lparr>tag = tg, attributes = XmlParser_get_attributes token, val = None,
                  nodes = []\<rparr>)
          \<and> (\<forall>rest p''. parse_tokens p (token # rest) = Inr p''
                \<longrightarrow> nodes (objects p'' ! length (objects p)) = []))\<close>
proof (intro conjI impI)
  show \<open>from_xml XmlRoot_default [] ''<a/>'' =
      Inr (\<lparr>version = ''1.0'', encoding = Some ''utf-8'', standalone = None, rootnode = Some 0\<rparr>,
           [\<lparr>tag = ''a'', attributes = [], val = None, nodes = []\<rparr>])\<close>
    by code_simp
  show \<open>from_xml XmlRoot_default [] ''<a></a>'' =
      Inr (\<lparr>version = ''1.0'', encoding = Some ''utf-8'', standalone = None, rootnode = Some 0\<rparr>,
           [\<lparr>tag = ''a'', attributes = [], val = None, nodes = []\<rparr>])\<close>
    by code_simp
next
  assume h: \<open>startswith token ''<'' \<and> \<not> startswith token ''<!'' \<and> \<not> startswith token ''<?''
        \<and> \<not> startswith token ''</'' \<and> endswith token ''/>''
        \<and> get_tag p token = Inr tg
        \<and> list_all (\<lambda>a. a < length (objects p)) (parent_nodes p)\<close>
  then have d: "process_token p token =
           (case process_startnode p token of
              Inl e \<Rightarrow> Inl e
            | Inr p1 \<Rightarrow> process_endnode p1 token)"
    by (intro self_closing_dispatch) simp_all
  from h self_closing_result[of p token tg]
  obtain p1 p' where r: "process_startnode p token = Inr p1" "process_endnode p1 token = Inr p'"
    "parent_nodes p' = parent_nodes p"
    "current_node p' = (if parent_nodes p = [] then None else Some (last (parent_nodes p)))"
    "length (objects p') = Suc (length (objects p))"
    "objects p' ! length (objects p) =
       \<lparr>tag = tg, attributes = XmlParser_get_attributes token, val = None, nodes = []\<rparr>"
    by blast
  from d r(1,2) have t: "process_token p token = Inr p'" by simp
  from r t show \<open>\<exists>p1 p'. process_startnode p token = Inr p1 \<and> process_endnode p1 token = Inr p'
             \<and> process_token p token = Inr p'
             \<and> parent_nodes p' = parent_nodes p
             \<and> current_node p' =
                 (if parent_nodes p = [] then None else Some (last (parent_nodes p)))
             \<and> objects p' ! length (objects p) =
                 \<lparr>tag = tg, attributes = XmlParser_get_attributes token, val = None,
                  nodes = []\<rparr>\<close>
    by blast
  have fresh: "length (objects p) \<notin> set (parent_nodes p')"
    using h r(3) by (auto simp: list_all_iff)
  show \<open>\<forall>rest p''. parse_tokens p (token # rest) = Inr p''
                \<longrightarrow> nodes (objects p'' ! length (objects p)) = []\<close>
  proof (intro allI impI)
    fix rest p''
    assume "parse_tokens p (token # rest) = Inr p''"
    with t have "parse_tokens (p'\<lparr>tokens_processed := tokens_processed p' @ [token]\<rparr>) rest
                   = Inr p''"
      by simp
    from parse_tokens_frame[OF this, of "length (objects p)"] r(5,6) fresh
    show "nodes (objects p'' ! length (objects p)) = []" by simp
  qed
qed

theorem self_closing_equivalence_witness:
  \<open>startswith ''<b/>'' ''<'' \<and> \<not> startswith ''<b/>'' ''<!'' \<and> \<not> startswith ''<b/>'' ''<?''
   \<and> \<not> startswith ''<b/>'' ''</'' \<and> endswith ''<b/>'' ''/>''
   \<and> get_tag \<lparr>xml_string = ''<a><b/></a>'', tokens_processed = [''<a>''],
               tokens = [''<a>'', ''<b/>'', ''</a>''],
               xml_root = XmlRoot_default\<lparr>rootnode := Some 0\<rparr>,
               current_node = Some 0, parent_nodes = [0],
               objects = [\<lparr>tag = ''a'', attributes = [], val = None, nodes = []\<rparr>],
               printed = []\<rparr> ''<b/>'' = Inr ''b''
   \<and> (\<exists>p'. process_token \<lparr>xml_string = ''<a><b/></a>'', tokens_processed = [''<a>''],
               tokens = [''<a>'', ''<b/>'', ''</a>''],
               xml_root = XmlRoot_default\<lparr>rootnode := Some 0\<rparr>,
               current_node = Some 0, parent_nodes = [0],
               objects = [\<lparr>tag = ''a'', attributes = [], val = None, nodes = []\<rparr>],
               printed = []\<rparr> ''<b/>'' = Inr p'
          \<and> parent_nodes p' = [0] \<and> current_node p' = Some 0
          \<and> objects p' ! 1 = \<lparr>tag = ''b'', attributes = [], val = None, nodes = []\<rparr>)
   \<and> (\<exists>p''. parse_tokens \<lparr>xml_string = ''<a><b/></a>'', tokens_processed = [''<a>''],
               tokens = [''<a>'', ''<b/>'', ''</a>''],
               xml_root = XmlRoot_default\<lparr>rootnode := Some 0\<rparr>,
               current_node = Some 0, parent_nodes = [0],
               objects = [\<lparr>tag = ''a'', attributes = [], val = None, nodes = []\<rparr>],
               printed = []\<rparr> [''<b/>'', ''</a>''] = Inr p''
          \<and> nodes (objects p'' ! 1) = [])\<close>
proof -
  let ?p = \<open>\<lparr>xml_string = ''<a><b/></a>'', tokens_processed = [''<a>''],
               tokens = [''<a>'', ''<b/>'', ''</a>''],
               xml_root = XmlRoot_default\<lparr>rootnode := Some 0\<rparr>,
               current_node = Some 0, parent_nodes = [0],
               objects = [\<lparr>tag = ''a'', attributes = [], val = None, nodes = []\<rparr>],
               printed = []\<rparr>\<close>
  have h: \<open>startswith ''<b/>'' ''<'' \<and> \<not> startswith ''<b/>'' ''<!'' \<and> \<not> startswith ''<b/>'' ''<?''
   \<and> \<not> startswith ''<b/>'' ''</'' \<and> endswith ''<b/>'' ''/>''\<close>
    by (simp add: startswith_def endswith_def)
  have g: \<open>get_tag ?p ''<b/>'' = Inr ''b''\<close> by code_simp
  have a: \<open>XmlParser_get_attributes ''<b/>'' = []\<close> by code_simp
  have i: \<open>list_all (\<lambda>a. a < length (objects ?p)) (parent_nodes ?p)\<close> by simp
  have \<open>\<not> isl (parse_tokens ?p [''<b/>'', ''</a>''])\<close> by code_simp
  then have ok: \<open>\<exists>p''. parse_tokens ?p [''<b/>'', ''</a>''] = Inr p''\<close>
    by (cases \<open>parse_tokens ?p [''<b/>'', ''</a>'']\<close>) simp_all
  from self_closing_equivalence[of \<open>''<b/>''\<close> ?p \<open>''b''\<close>] h g i
  have c: \<open>\<exists>p1 p'. process_startnode ?p ''<b/>'' = Inr p1 \<and> process_endnode p1 ''<b/>'' = Inr p'
             \<and> process_token ?p ''<b/>'' = Inr p'
             \<and> parent_nodes p' = parent_nodes ?p
             \<and> current_node p' =
                 (if parent_nodes ?p = [] then None else Some (last (parent_nodes ?p)))
             \<and> objects p' ! length (objects ?p) =
                 \<lparr>tag = ''b'', attributes = XmlParser_get_attributes ''<b/>'', val = None,
                  nodes = []\<rparr>\<close>
    and f: \<open>\<forall>rest p''. parse_tokens ?p (''<b/>'' # rest) = Inr p''
                \<longrightarrow> nodes (objects p'' ! length (objects ?p)) = []\<close>
    by blast+
  from c a have 1: \<open>\<exists>p'. process_token ?p ''<b/>'' = Inr p'
          \<and> parent_nodes p' = [0] \<and> current_node p' = Some 0
          \<and> objects p' ! 1 = \<lparr>tag = ''b'', attributes = [], val = None, nodes = []\<rparr>\<close>
    by auto
  from ok f have 2: \<open>\<exists>p''. parse_tokens ?p [''<b/>'', ''</a>''] = Inr p''
          \<and> nodes (objects p'' ! 1) = []\<close>
    by auto
  from h g 1 2 show ?thesis by blast
qed

section \<open>Lookups by path\<close>

lemma get_first_node_Str:
  "get_first_node r h self (Str t) =
     (case get_all_nodes h self t of
        [] \<Rightarrow> (Inr None, Str t)
      | node # _ \<Rightarrow> (Inr (Some node), Str t))"
  by (rule get_first_node.simps)

lemma get_first_node_single:
  "get_first_node r h self (Lst [t]) =
     (case get_all_nodes h self t of [] \<Rightarrow> Inr None | node # _ \<Rightarrow> Inr (Some node), Lst [t])"
  by (subst get_first_node.simps) (simp add: get_first_node_Str split: list.splits)

lemma get_first_node_step:
  assumes "ts \<noteq> []"
  shows "get_first_node r h self (Lst (t # ts)) =
     (case get_all_nodes h self t of
        [] \<Rightarrow> (if r then Inl (XmlException (Subnode_not_found t (tag (h ! self))))
               else Inr None, Lst ts)
      | node # _ \<Rightarrow> get_first_node r h node (Lst ts))"
proof -
  from assms have "1 < length (t # ts)" by (cases ts) simp_all
  then show ?thesis
    by (subst get_first_node.simps) (simp add: get_first_node_Str Let_def split: list.splits)
qed

lemma get_first_node_pops:
  assumes "path \<noteq> []"
  shows "\<exists>k. k < length path \<and> (1 < length path \<longrightarrow> 0 < k)
           \<and> snd (get_first_node r h self (Lst path)) = Lst (drop k path)"
  using assms
proof (induction path arbitrary: self)
  case Nil
  then show ?case by simp
next
  case (Cons t ts)
  show ?case
  proof (cases "ts = []")
    case True
    then show ?thesis by (simp add: get_first_node_single)
  next
    case False
    show ?thesis
    proof (cases "get_all_nodes h self t")
      case Nil
      with False have "snd (get_first_node r h self (Lst (t # ts))) = Lst (drop 1 (t # ts))"
        by (simp add: get_first_node_step)
      with False show ?thesis by (intro exI[of _ 1]) (cases ts, simp_all)
    next
      case (Cons node rest)
      from Cons.IH[OF False, of node] obtain k where k: "k < length ts"
        "snd (get_first_node r h node (Lst ts)) = Lst (drop k ts)" by blast
      with False Cons show ?thesis
        by (intro exI[of _ "Suc k"]) (simp add: get_first_node_step)
    qed
  qed
qed

lemma get_first_node_no_exception:
  assumes "path \<noteq> []"
  shows "\<exists>res. fst (get_first_node False h self (Lst path)) = Inr res"
  using assms
proof (induction path arbitrary: self)
  case Nil
  then show ?case by simp
next
  case (Cons t ts)
  show ?case
  proof (cases "ts = []")
    case True
    then show ?thesis by (simp add: get_first_node_single split: list.splits)
  next
    case False
    with Cons.IH[OF False] show ?thesis
      by (simp add: get_first_node_step split: list.splits)
  qed
qed

lemma insert_helper_list:
  assumes "1 < length path"
  shows "snd (insert_helper r h self (Lst path) node add) =
           snd (get_first_node r h self (Lst (butlast path)))"
  using assms
  by (simp add: insert_helper_def Let_def split: prod.splits sum.splits option.splits)

text \<open>
  C7. \<open>get_first_node\<close> with a path resolves each segment among the direct children of
  the previous match: for a path of more than one tag it looks the first tag up among the
  children of the node and goes on from the match with the rest. So where the first child
  matching \<^verbatim>\<open>a\<close> has a first child matching \<^verbatim>\<open>b\<close>, which has a first child matching
  \<^verbatim>\<open>c\<close> with value \<^verbatim>\<open>x\<close>, the path a, b, c resolves to that node and its value is
  \<^verbatim>\<open>x\<close>. With \<^verbatim>\<open>RAISE_NONE_ERROR\<close> at its default, a lookup with a path that is not
  empty raises no exception, and it returns \<^verbatim>\<open>None\<close> as soon as a segment has no match.
\<close>

theorem path_lookup:
  \<open>(get_all_nodes h self a = na # ra \<and> get_all_nodes h na b = nb # rb
      \<and> get_all_nodes h nb c = nc # rc \<and> val (h ! nc) = Some x
     \<longrightarrow> fst (get_first_node raise_none_error h self (Lst [a, b, c])) = Inr (Some nc)
         \<and> fst (get_value raise_none_error h self (Lst [a, b, c])) = Inr (Some x))
   \<and> (ts \<noteq> []
     \<longrightarrow> fst (get_first_node raise_none_error h self (Lst (t # ts))) =
           (case get_all_nodes h self t of
              [] \<Rightarrow> if raise_none_error
                    then Inl (XmlException (Subnode_not_found t (tag (h ! self))))
                    else Inr None
            | node # _ \<Rightarrow> fst (get_first_node raise_none_error h node (Lst ts))))
   \<and> (path \<noteq> [] \<longrightarrow> (\<exists>res. fst (get_first_node RAISE_NONE_ERROR h self (Lst path)) = Inr res))
   \<and> (get_all_nodes h self t = []
     \<longrightarrow> fst (get_first_node RAISE_NONE_ERROR h self (Lst (t # ts))) = Inr None)\<close>
proof (intro conjI impI)
  assume chain: \<open>get_all_nodes h self a = na # ra \<and> get_all_nodes h na b = nb # rb
      \<and> get_all_nodes h nb c = nc # rc \<and> val (h ! nc) = Some x\<close>
  then have g: \<open>get_first_node raise_none_error h self (Lst [a, b, c]) = (Inr (Some nc), Lst [c])\<close>
    by (simp add: get_first_node_step get_first_node_single)
  then show \<open>fst (get_first_node raise_none_error h self (Lst [a, b, c])) = Inr (Some nc)\<close>
    by simp
  from g chain show \<open>fst (get_value raise_none_error h self (Lst [a, b, c])) = Inr (Some x)\<close>
    by (simp add: get_value_def)
next
  assume \<open>ts \<noteq> []\<close>
  then show \<open>fst (get_first_node raise_none_error h self (Lst (t # ts))) =
           (case get_all_nodes h self t of
              [] \<Rightarrow> if raise_none_error
                    then Inl (XmlException (Subnode_not_found t (tag (h ! self))))
                    else Inr None
            | node # _ \<Rightarrow> fst (get_first_node raise_none_error h node (Lst ts)))\<close>
    by (simp add: get_first_node_step split: list.splits)
next
  assume \<open>path \<noteq> []\<close>
  then show \<open>\<exists>res. fst (get_first_node RAISE_NONE_ERROR h self (Lst path)) = Inr res\<close>
    unfolding RAISE_NONE_ERROR_def by (rule get_first_node_no_exception)
next
  assume \<open>get_all_nodes h self t = []\<close>
  then show \<open>fst (get_first_node RAISE_NONE_ERROR h self (Lst (t # ts))) = Inr None\<close>
    by (cases \<open>ts = []\<close>)
       (simp_all add: RAISE_NONE_ERROR_def get_first_node_step get_first_node_single)
qed

theorem path_lookup_witness:
  \<open>get_all_nodes [\<lparr>tag = ''r'', attributes = [], val = None, nodes = [1]\<rparr>,
             \<lparr>tag = ''a'', attributes = [], val = None, nodes = [2]\<rparr>,
             \<lparr>tag = ''b'', attributes = [], val = None, nodes = [3]\<rparr>,
             \<lparr>tag = ''c'', attributes = [], val = Some ''x'', nodes = []\<rparr>] 0 ''a'' = [1]
   \<and> get_all_nodes [\<lparr>tag = ''r'', attributes = [], val = None, nodes = [1]\<rparr>,
             \<lparr>tag = ''a'', attributes = [], val = None, nodes = [2]\<rparr>,
             \<lparr>tag = ''b'', attributes = [], val = None, nodes = [3]\<rparr>,
             \<lparr>tag = ''c'', attributes = [], val = Some ''x'', nodes = []\<rparr>] 1 ''b'' = [2]
   \<and> get_all_nodes [\<lparr>tag = ''r'', attributes = [], val = None, nodes = [1]\<rparr>,
             \<lparr>tag = ''a'', attributes = [], val = None, nodes = [2]\<rparr>,
             \<lparr>tag = ''b'', attributes = [], val = None, nodes = [3]\<rparr>,
             \<lparr>tag = ''c'', attributes = [], val = Some ''x'', nodes = []\<rparr>] 2 ''c'' = [3]
   \<and> val ([\<lparr>tag = ''r'', attributes = [], val = None, nodes = [1]\<rparr>,
             \<lparr>tag = ''a'', attributes = [], val = None, nodes = [2]\<rparr>,
             \<lparr>tag = ''b'', attributes = [], val = None, nodes = [3]\<rparr>,
             \<lparr>tag = ''c'', attributes = [], val = Some ''x'', nodes = []\<rparr>] ! 3) = Some ''x''
   \<and> get_all_nodes [\<lparr>tag = ''r'', attributes = [], val = None, nodes = [1]\<rparr>,
             \<lparr>tag = ''a'', attributes = [], val = None, nodes = [2]\<rparr>,
             \<lparr>tag = ''b'', attributes = [], val = None, nodes = [3]\<rparr>,
             \<lparr>tag = ''c'', attributes = [], val = Some ''x'', nodes = []\<rparr>] 1 ''zzz'' = []
   \<and> fst (get_first_node RAISE_NONE_ERROR [\<lparr>tag = ''r'', attributes = [], val = None, nodes = [1]\<rparr>,
             \<lparr>tag = ''a'', attributes = [], val = None, nodes = [2]\<rparr>,
             \<lparr>tag = ''b'', attributes = [], val = None, nodes = [3]\<rparr>,
             \<lparr>tag = ''c'', attributes = [], val = Some ''x'', nodes = []\<rparr>] 0 (Lst [''a'', ''b'', ''c''])) = Inr (Some 3)
   \<and> fst (get_value RAISE_NONE_ERROR [\<lparr>tag = ''r'', attributes = [], val = None, nodes = [1]\<rparr>,
             \<lparr>tag = ''a'', attributes = [], val = None, nodes = [2]\<rparr>,
             \<lparr>tag = ''b'', attributes = [], val = None, nodes = [3]\<rparr>,
             \<lparr>tag = ''c'', attributes = [], val = Some ''x'', nodes = []\<rparr>] 0 (Lst [''a'', ''b'', ''c''])) = Inr (Some ''x'')
   \<and> fst (get_first_node RAISE_NONE_ERROR [\<lparr>tag = ''r'', attributes = [], val = None, nodes = [1]\<rparr>,
             \<lparr>tag = ''a'', attributes = [], val = None, nodes = [2]\<rparr>,
             \<lparr>tag = ''b'', attributes = [], val = None, nodes = [3]\<rparr>,
             \<lparr>tag = ''c'', attributes = [], val = Some ''x'', nodes = []\<rparr>] 1 (Lst [''zzz''])) = Inr None
   \<and> fst (get_first_node RAISE_NONE_ERROR [\<lparr>tag = ''r'', attributes = [], val = None, nodes = [1]\<rparr>,
             \<lparr>tag = ''a'', attributes = [], val = None, nodes = [2]\<rparr>,
             \<lparr>tag = ''b'', attributes = [], val = None, nodes = [3]\<rparr>,
             \<lparr>tag = ''c'', attributes = [], val = Some ''x'', nodes = []\<rparr>] 0 (Lst [''a'', ''zzz''])) = Inr None\<close>
proof -
  let ?h = \<open>[\<lparr>tag = ''r'', attributes = [], val = None, nodes = [1]\<rparr>,
             \<lparr>tag = ''a'', attributes = [], val = None, nodes = [2]\<rparr>,
             \<lparr>tag = ''b'', attributes = [], val = None, nodes = [3]\<rparr>,
             \<lparr>tag = ''c'', attributes = [], val = Some ''x'', nodes = []\<rparr>]\<close>
  have a: \<open>get_all_nodes ?h 0 ''a'' = [1]\<close> by code_simp
  have b: \<open>get_all_nodes ?h 1 ''b'' = [2]\<close> by code_simp
  have c: \<open>get_all_nodes ?h 2 ''c'' = [3]\<close> by code_simp
  have x: \<open>val (?h ! 3) = Some ''x''\<close> by simp
  have z: \<open>get_all_nodes ?h 1 ''zzz'' = []\<close> by code_simp
  note chain = path_lookup[of ?h 0 \<open>''a''\<close> 1 \<open>[]\<close> \<open>''b''\<close> 2 \<open>[]\<close> \<open>''c''\<close> 3 \<open>[]\<close> \<open>''x''\<close>
      RAISE_NONE_ERROR]
  from chain a b c x
  have 1: \<open>fst (get_first_node RAISE_NONE_ERROR ?h 0 (Lst [''a'', ''b'', ''c''])) = Inr (Some 3)\<close>
    and 2: \<open>fst (get_value RAISE_NONE_ERROR ?h 0 (Lst [''a'', ''b'', ''c''])) = Inr (Some ''x'')\<close>
    by blast+
  from path_lookup[of ?h 1 _ _ _ _ _ _ _ _ _ _ _ \<open>[]\<close> \<open>''zzz''\<close>] z
  have 3: \<open>fst (get_first_node RAISE_NONE_ERROR ?h 1 (Lst [''zzz''])) = Inr None\<close>
    by blast
  from path_lookup[of ?h 0 _ _ _ _ _ _ _ _ _ _ RAISE_NONE_ERROR \<open>[''zzz'']\<close> \<open>''a''\<close>] a 3
  have 4: \<open>fst (get_first_node RAISE_NONE_ERROR ?h 0 (Lst [''a'', ''zzz''])) = Inr None\<close>
    by simp
  from a b c x z 1 2 3 4 show ?thesis by blast
qed

text \<open>
  C10. The lookups and inserts that take a path change the list they are given. For a
  list of more than one tag, \<open>get_first_node\<close> pops tags from its front (at least the
  first, never the last); \<open>insert_helper\<close>, and so \<open>insert_before\<close> and
  \<open>insert_after\<close>, pop the last tag and then hand the list to \<open>get_first_node\<close>. After
  either call the caller's list is not the path that was passed in.
\<close>

theorem path_argument_is_mutated:
  \<open>1 < length path
   \<longrightarrow> (\<exists>k. 0 < k \<and> k < length path
            \<and> snd (get_first_node raise_none_error h self (Lst path)) = Lst (drop k path))
       \<and> snd (get_first_node raise_none_error h self (Lst path)) \<noteq> Lst path
       \<and> (\<exists>k. k < length path - 1
            \<and> snd (insert_helper raise_none_error h self (Lst path) node add) =
                Lst (drop k (butlast path)))
       \<and> snd (insert_before raise_none_error h self (Lst path) node) \<noteq> Lst path
       \<and> snd (insert_after raise_none_error h self (Lst path) node) \<noteq> Lst path\<close>
proof
  assume len: \<open>1 < length path\<close>
  then have ne: \<open>path \<noteq> []\<close> \<open>butlast path \<noteq> []\<close> by (cases path; cases \<open>tl path\<close>; simp)+
  from get_first_node_pops[OF ne(1), of raise_none_error h self] len
  obtain k where k: \<open>0 < k\<close> \<open>k < length path\<close>
    \<open>snd (get_first_node raise_none_error h self (Lst path)) = Lst (drop k path)\<close>
    by blast
  then have \<open>length (drop k path) \<noteq> length path\<close> by simp
  then have d: \<open>drop k path \<noteq> path\<close> by metis
  have ins: \<open>\<exists>j. j < length path - 1
      \<and> snd (insert_helper raise_none_error h self (Lst path) node add) =
          Lst (drop j (butlast path))\<close> for add
    using get_first_node_pops[OF ne(2), of raise_none_error h self]
    by (auto simp: insert_helper_list[OF len])
  have neq: \<open>snd (insert_helper raise_none_error h self (Lst path) node add) \<noteq> Lst path\<close> for add
  proof -
    from ins[of add] obtain j where
      j: \<open>snd (insert_helper raise_none_error h self (Lst path) node add) =
            Lst (drop j (butlast path))\<close>
      by blast
    have \<open>length (drop j (butlast path)) < length path\<close> using ne(1) by (simp add: less_Suc_eq_le)
    then have \<open>drop j (butlast path) \<noteq> path\<close> by (metis less_irrefl)
    with j show ?thesis by simp
  qed
  from k d ins[of add] neq show
    \<open>(\<exists>k. 0 < k \<and> k < length path
            \<and> snd (get_first_node raise_none_error h self (Lst path)) = Lst (drop k path))
       \<and> snd (get_first_node raise_none_error h self (Lst path)) \<noteq> Lst path
       \<and> (\<exists>k. k < length path - 1
            \<and> snd (insert_helper raise_none_error h self (Lst path) node add) =
                Lst (drop k (butlast path)))
       \<and> snd (insert_before raise_none_error h self (Lst path) node) \<noteq> Lst path
       \<and> snd (insert_after raise_none_error h self (Lst path) node) \<noteq> Lst path\<close>
    by (auto simp: insert_before_def insert_after_def)
qed

theorem path_argument_is_mutated_witness:
  \<open>1 < length [''a'', ''b'', ''c'']
   \<and> get_first_node RAISE_NONE_ERROR [\<lparr>tag = ''r'', attributes = [], val = None, nodes = [1]\<rparr>,
             \<lparr>tag = ''a'', attributes = [], val = None, nodes = [2]\<rparr>,
             \<lparr>tag = ''b'', attributes = [], val = None, nodes = [3]\<rparr>,
             \<lparr>tag = ''c'', attributes = [], val = Some ''x'', nodes = []\<rparr>] 0 (Lst [''a'', ''b'', ''c'']) = (Inr (Some 3), Lst [''c''])
   \<and> snd (get_first_node RAISE_NONE_ERROR [\<lparr>tag = ''r'', attributes = [], val = None, nodes = [1]\<rparr>,
             \<lparr>tag = ''a'', attributes = [], val = None, nodes = [2]\<rparr>,
             \<lparr>tag = ''b'', attributes = [], val = None, nodes = [3]\<rparr>,
             \<lparr>tag = ''c'', attributes = [], val = Some ''x'', nodes = []\<rparr>] 0 (Lst [''a'', ''b'', ''c''])) \<noteq> Lst [''a'', ''b'', ''c'']
   \<and> snd (insert_before RAISE_NONE_ERROR ([\<lparr>tag = ''r'', attributes = [], val = None, nodes = [1]\<rparr>,
             \<lparr>tag = ''a'', attributes = [], val = None, nodes = [2]\<rparr>,
             \<lparr>tag = ''b'', attributes = [], val = None, nodes = [3]\<rparr>,
             \<lparr>tag = ''c'', attributes = [], val = Some ''x'', nodes = []\<rparr>] @ [\<lparr>tag = ''n'', attributes = [], val = None, nodes = []\<rparr>])
             0 (Lst [''a'', ''b'', ''c'']) 4) = Lst [''b'']
   \<and> snd (insert_before RAISE_NONE_ERROR ([\<lparr>tag = ''r'', attributes = [], val = None, nodes = [1]\<rparr>,
             \<lparr>tag = ''a'', attributes = [], val = None, nodes = [2]\<rparr>,
             \<lparr>tag = ''b'', attributes = [], val = None, nodes = [3]\<rparr>,
             \<lparr>tag = ''c'', attributes = [], val = Some ''x'', nodes = []\<rparr>] @ [\<lparr>tag = ''n'', attributes = [], val = None, nodes = []\<rparr>])
             0 (Lst [''a'', ''b'', ''c'']) 4) \<noteq> Lst [''a'', ''b'', ''c'']
   \<and> snd (insert_after RAISE_NONE_ERROR ([\<lparr>tag = ''r'', attributes = [], val = None, nodes = [1]\<rparr>,
             \<lparr>tag = ''a'', attributes = [], val = None, nodes = [2]\<rparr>,
             \<lparr>tag = ''b'', attributes = [], val = None, nodes = [3]\<rparr>,
             \<lparr>tag = ''c'', attributes = [], val = Some ''x'', nodes = []\<rparr>] @ [\<lparr>tag = ''n'', attributes = [], val = None, nodes = []\<rparr>])
             0 (Lst [''a'', ''b'', ''c'']) 4) \<noteq> Lst [''a'', ''b'', ''c'']\<close>
proof -
  let ?h = \<open>[\<lparr>tag = ''r'', attributes = [], val = None, nodes = [1]\<rparr>,
             \<lparr>tag = ''a'', attributes = [], val = None, nodes = [2]\<rparr>,
             \<lparr>tag = ''b'', attributes = [], val = None, nodes = [3]\<rparr>,
             \<lparr>tag = ''c'', attributes = [], val = Some ''x'', nodes = []\<rparr>]\<close>
  let ?h' = \<open>[\<lparr>tag = ''r'', attributes = [], val = None, nodes = [1]\<rparr>,
             \<lparr>tag = ''a'', attributes = [], val = None, nodes = [2]\<rparr>,
             \<lparr>tag = ''b'', attributes = [], val = None, nodes = [3]\<rparr>,
             \<lparr>tag = ''c'', attributes = [], val = Some ''x'', nodes = []\<rparr>] @ [\<lparr>tag = ''n'', attributes = [], val = None, nodes = []\<rparr>]\<close>
  have l: \<open>1 < length [''a'', ''b'', ''c'']\<close> by simp
  have 1: \<open>get_first_node RAISE_NONE_ERROR ?h 0 (Lst [''a'', ''b'', ''c'']) = (Inr (Some 3), Lst [''c''])\<close>
    by code_simp
  have 2: \<open>snd (insert_before RAISE_NONE_ERROR ?h' 0 (Lst [''a'', ''b'', ''c'']) 4) = Lst [''b'']\<close>
    by code_simp
  from path_argument_is_mutated[of \<open>[''a'', ''b'', ''c'']\<close> RAISE_NONE_ERROR ?h 0 4 0] l
  have 3: \<open>snd (get_first_node RAISE_NONE_ERROR ?h 0 (Lst [''a'', ''b'', ''c''])) \<noteq> Lst [''a'', ''b'', ''c'']\<close>
    by blast
  from path_argument_is_mutated[of \<open>[''a'', ''b'', ''c'']\<close> RAISE_NONE_ERROR ?h' 0 4 0] l
  have 4: \<open>snd (insert_before RAISE_NONE_ERROR ?h' 0 (Lst [''a'', ''b'', ''c'']) 4) \<noteq> Lst [''a'', ''b'', ''c'']\<close>
    and 5: \<open>snd (insert_after RAISE_NONE_ERROR ?h' 0 (Lst [''a'', ''b'', ''c'']) 4) \<noteq> Lst [''a'', ''b'', ''c'']\<close>
    by blast+
  from l 1 2 3 4 5 show ?thesis by blast
qed

section \<open>Serialization\<close>

lemma attributes_loop_ok:
  \<open>attributes_loop items out =
     Inr (out @ concat (map (\<lambda>(key, v). key @ ''="'' @ replace v ''"'' ''&quot;'' @ ''" '') items))\<close>
  by (induction items arbitrary: out) (auto simp: XML_REPLACEMENT_CHARS_def)

lemma attributes_to_xml_ok:
  \<open>attributes_to_xml attrs =
     Inr (concat (map (\<lambda>(key, v). key @ ''="'' @ replace v ''"'' ''&quot;'' @ ''" '') attrs))\<close>
  by (simp add: attributes_to_xml_def attributes_loop_ok)

lemma xml_declaration_token:
  \<open>process_token p ''<?xml version="1.1" encoding="utf-8"?>'' =
     Inr (p\<lparr>xml_root := (xml_root p)\<lparr>version := ''1.1'', encoding := Some ''utf-8''\<rparr>\<rparr>)\<close>
proof -
  have a: \<open>XmlParser_get_attributes ''<?xml version="1.1" encoding="utf-8"?>'' =
             [(''version'', ''1.1''), (''encoding'', ''utf-8'')]\<close>
    by code_simp
  have b: \<open>startswith ''<?xml version="1.1" encoding="utf-8"?>'' ''<''\<close>
     \<open>\<not> startswith ''<?xml version="1.1" encoding="utf-8"?>'' ''<!--''\<close>
     \<open>\<not> startswith ''<?xml version="1.1" encoding="utf-8"?>'' ''<![CDATA''\<close>
     \<open>\<not> startswith ''<?xml version="1.1" encoding="utf-8"?>'' ''<!ELEMENT''\<close>
     \<open>\<not> startswith ''<?xml version="1.1" encoding="utf-8"?>'' ''<!ATTLIST''\<close>
     \<open>\<not> startswith ''<?xml version="1.1" encoding="utf-8"?>'' ''<!ENTITY''\<close>
     \<open>\<not> startswith ''<?xml version="1.1" encoding="utf-8"?>'' ''<!DOCTYPE''\<close>
     \<open>\<not> startswith ''<?xml version="1.1" encoding="utf-8"?>'' ''<!''\<close>
     \<open>startswith ''<?xml version="1.1" encoding="utf-8"?>'' ''<?xml''\<close>
    by (simp_all add: startswith_def)
  show ?thesis
    unfolding process_token_def process_xmldeclaration_def a
    by (simp add: b Let_def)
qed

lemma serialize_declaration:
  assumes \<open>version r = ''1.1''\<close> \<open>encoding r = Some ''utf-8''\<close> \<open>\<not> truthy (standalone r)\<close>
    \<open>rootnode r = Some n\<close> \<open>to_xml h d n 0 = Inr x\<close>
  shows \<open>XmlRoot_to_xml h d r = Inr (''<?xml version="1.1" encoding="utf-8"  ?>\<newline>'' @ x)\<close>
  using assms
  by (simp add: XmlRoot_to_xml_def serialize_xml_def XmlSerializer_init_def truthy_def
      attributes_to_xml_ok replace_def Let_def)

lemma is_empty_child:
  assumes "\<not> truthy (val (h ! n))" "attributes (h ! n) = []" "nodes (h ! n) = [c]"
    "is_empty h d c = Inr True"
  shows "is_empty h (Suc d) n = Inr True"
  using assms by simp

lemma to_xml_empty:
  assumes "is_empty h d n = Inr True"
  shows "to_xml h (Suc d) n i = Inr []"
  using assms by simp

lemma to_xml_one_attribute:
  assumes "attributes (h ! n) = [(k, v)]" "nodes (h ! n) = []" "\<not> truthy (val (h ! n))"
  shows \<open>to_xml h (Suc (Suc d)) n i =
           Inr (replicate i (CHR 0x09) @ ''<'' @ tag (h ! n) @ '' '' @ k @ ''="''
                @ replace v ''"'' ''&quot;'' @ ''" />'')\<close>
  using assms
  by (simp add: attributes_to_xml_def XML_REPLACEMENT_CHARS_def)

lemma serialize_xml_shape:
  assumes "rootnode r = Some n" "to_xml h d n 0 = Inr x"
  shows "\<exists>decl. XmlRoot_to_xml h d r = Inr (decl @ x)"
proof -
  have a: "\<exists>a. attributes_to_xml attrs = Inr a" for attrs
  proof -
    have "\<exists>a. attributes_loop items out = Inr a" for items out
      by (induction items arbitrary: out) (auto simp: XML_REPLACEMENT_CHARS_def)
    then show ?thesis by (simp add: attributes_to_xml_def)
  qed
  define a3 where "a3 =
    (let a1 = (if version r \<noteq> [] then dict_set [] ''version'' (version r) else []);
         a2 = (if truthy (encoding r)
                then dict_set a1 ''encoding'' (case encoding r of Some x \<Rightarrow> x | None \<Rightarrow> [])
                else a1)
     in (if truthy (standalone r)
                then dict_set a2 ''standalone'' (case standalone r of Some x \<Rightarrow> x | None \<Rightarrow> [])
                else a2))"
  from a[of a3] obtain a where a: "attributes_to_xml a3 = Inr a" by blast
  show ?thesis
  proof (cases "length a3 > 0")
    case True
    with assms a have "XmlRoot_to_xml h d r = Inr ((''<?xml '' @ a @ '' ?>'' @ [CHR 0x0A]) @ x)"
      by (simp add: XmlRoot_to_xml_def serialize_xml_def XmlSerializer_init_def Let_def a3_def)
    then show ?thesis by blast
  next
    case False
    with assms a have "XmlRoot_to_xml h d r = Inr ([] @ x)"
      by (simp add: XmlRoot_to_xml_def serialize_xml_def XmlSerializer_init_def Let_def a3_def)
    then show ?thesis by blast
  qed
qed

text \<open>
  C9. A node with no attributes and no value whose only child is empty is empty itself
  and is rendered as the empty string; so is every node that \<open>is_empty\<close> finds empty
  within the depth admitted. A node with exactly one attribute, no children and no value
  is rendered in the self-closing form, closed with \<^verbatim>\<open>/>\<close> after the attribute and the
  space that follows every attribute, and as the root of a document it ends the text that
  \<open>XmlRoot_to_xml\<close> returns.
\<close>

theorem empty_pruning:
  \<open>(\<not> truthy (val (h ! n)) \<and> attributes (h ! n) = [] \<and> nodes (h ! n) = [c]
      \<and> is_empty h d c = Inr True
     \<longrightarrow> is_empty h (Suc d) n = Inr True \<and> to_xml h (Suc (Suc d)) n i = Inr [])
   \<and> (is_empty h d n = Inr True \<longrightarrow> to_xml h (Suc d) n i = Inr [])
   \<and> (rootnode r = Some n \<and> attributes (h ! n) = [(k, v)] \<and> nodes (h ! n) = []
        \<and> \<not> truthy (val (h ! n))
     \<longrightarrow> to_xml h (Suc (Suc d)) n 0 =
           Inr (''<'' @ tag (h ! n) @ '' '' @ k @ ''="'' @ replace v ''"'' ''&quot;'' @ ''" />'')
         \<and> (\<exists>decl. XmlRoot_to_xml h (Suc (Suc d)) r =
               Inr (decl @ ''<'' @ tag (h ! n) @ '' '' @ k @ ''="'' @ replace v ''"'' ''&quot;''
                    @ ''" />'')))\<close>
proof (intro conjI impI)
  assume a: \<open>\<not> truthy (val (h ! n)) \<and> attributes (h ! n) = [] \<and> nodes (h ! n) = [c]
      \<and> is_empty h d c = Inr True\<close>
  then show e: \<open>is_empty h (Suc d) n = Inr True\<close> by (simp add: is_empty_child)
  then show \<open>to_xml h (Suc (Suc d)) n i = Inr []\<close> by (rule to_xml_empty)
next
  assume \<open>is_empty h d n = Inr True\<close>
  then show \<open>to_xml h (Suc d) n i = Inr []\<close> by (rule to_xml_empty)
next
  assume a: \<open>rootnode r = Some n \<and> attributes (h ! n) = [(k, v)] \<and> nodes (h ! n) = []
        \<and> \<not> truthy (val (h ! n))\<close>
  then have t: \<open>to_xml h (Suc (Suc d)) n 0 =
           Inr (''<'' @ tag (h ! n) @ '' '' @ k @ ''="'' @ replace v ''"'' ''&quot;'' @ ''" />'')\<close>
    using to_xml_one_attribute[of h n k v d 0] by simp
  then show \<open>to_xml h (Suc (Suc d)) n 0 =
           Inr (''<'' @ tag (h ! n) @ '' '' @ k @ ''="'' @ replace v ''"'' ''&quot;'' @ ''" />'')\<close> .
  from a t serialize_xml_shape[of r n h \<open>Suc (Suc d)\<close>]
  show \<open>\<exists>decl. XmlRoot_to_xml h (Suc (Suc d)) r =
               Inr (decl @ ''<'' @ tag (h ! n) @ '' '' @ k @ ''="'' @ replace v ''"'' ''&quot;''
                    @ ''" />'')\<close>
    by blast
qed

theorem empty_pruning_witness:
  \<open>is_empty [\<lparr>tag = ''a'', attributes = [], val = None, nodes = [1]\<rparr>,
             \<lparr>tag = ''b'', attributes = [], val = None, nodes = []\<rparr>] 1 1 = Inr True
   \<and> is_empty [\<lparr>tag = ''a'', attributes = [], val = None, nodes = [1]\<rparr>,
               \<lparr>tag = ''b'', attributes = [], val = None, nodes = []\<rparr>] 2 0 = Inr True
   \<and> to_xml [\<lparr>tag = ''a'', attributes = [], val = None, nodes = [1]\<rparr>,
             \<lparr>tag = ''b'', attributes = [], val = None, nodes = []\<rparr>] 3 0 0 = Inr []
   \<and> to_xml [\<lparr>tag = ''r'', attributes = [(''x'', ''1'')], val = None, nodes = []\<rparr>] 2 0 0 =
       Inr ''<r x="1" />''
   \<and> XmlRoot_to_xml [\<lparr>tag = ''r'', attributes = [(''x'', ''1'')], val = None, nodes = []\<rparr>] 2
         (XmlRoot_default\<lparr>rootnode := Some 0\<rparr>) =
       Inr ''<?xml version="1.0" encoding="utf-8"  ?>\<newline><r x="1" />''\<close>
proof -
  let ?h = \<open>[\<lparr>tag = ''a'', attributes = [], val = None, nodes = [1]\<rparr>,
             \<lparr>tag = ''b'', attributes = [], val = None, nodes = []\<rparr>]\<close>
  let ?g = \<open>[\<lparr>tag = ''r'', attributes = [(''x'', ''1'')], val = None, nodes = []\<rparr>]\<close>
  have c: \<open>is_empty ?h 1 1 = Inr True\<close> by code_simp
  have f: \<open>\<not> truthy (val (?h ! 0)) \<and> attributes (?h ! 0) = [] \<and> nodes (?h ! 0) = [1]\<close>
    by (simp add: truthy_def)
  from empty_pruning[where h = ?h and n = 0 and c = 1 and d = 1 and i = 0] c f
  have 1: \<open>is_empty ?h 2 0 = Inr True\<close> and 2: \<open>to_xml ?h 3 0 0 = Inr []\<close>
    by (simp_all add: numeral_2_eq_2 numeral_3_eq_3)
  have g: \<open>rootnode (XmlRoot_default\<lparr>rootnode := Some 0\<rparr>) = Some 0
        \<and> attributes (?g ! 0) = [(''x'', ''1'')] \<and> nodes (?g ! 0) = []
        \<and> \<not> truthy (val (?g ! 0))\<close>
    by (simp add: truthy_def)
  have rep: \<open>replace ''1'' ''"'' ''&quot;'' = ''1''\<close> by code_simp
  from empty_pruning[where h = ?g and n = 0 and d = 0
      and r = \<open>XmlRoot_default\<lparr>rootnode := Some 0\<rparr>\<close> and k = \<open>''x''\<close> and v = \<open>''1''\<close>] g
  have 3: \<open>to_xml ?g 2 0 0 = Inr ''<r x="1" />''\<close>
    by (simp add: numeral_2_eq_2 rep)
  have 4: \<open>XmlRoot_to_xml ?g 2 (XmlRoot_default\<lparr>rootnode := Some 0\<rparr>) =
       Inr ''<?xml version="1.0" encoding="utf-8"  ?>\<newline><r x="1" />''\<close>
    by code_simp
  from c 1 2 3 4 show ?thesis by blast
qed

text \<open>
  C3, as the specification states it, fails on the text that is serialized. Parsing
  \<^verbatim>\<open><r a="1"><c>text &amp; more</c></r>\<close> gives the tree the claim describes, and
  rendering its root gives the text of the claim but for a space between the attribute and
  the \<^verbatim>\<open>>\<close> of the opening tag: every attribute is written with a space after it.
\<close>

theorem round_trip_counterexample:
  \<open>from_xml XmlRoot_default [] ''<r a="1"><c>text &amp; more</c></r>'' = Inr (\<lparr>version = ''1.0'', encoding = Some ''utf-8'', standalone = None, rootnode = Some 0\<rparr>, [\<lparr>tag = ''r'', attributes = [(''a'', ''1'')], val = None, nodes = [1]\<rparr>,
           \<lparr>tag = ''c'', attributes = [], val = Some ''text & more'', nodes = []\<rparr>])
   \<and> to_xml [\<lparr>tag = ''r'', attributes = [(''a'', ''1'')], val = None, nodes = [1]\<rparr>,
           \<lparr>tag = ''c'', attributes = [], val = Some ''text & more'', nodes = []\<rparr>] recursion_limit 0 0 =
       Inr (''<r a="1" >\<newline>'' @ [CHR 0x09] @ ''<c>text &amp; more</c>\<newline></r>'')
   \<and> to_xml [\<lparr>tag = ''r'', attributes = [(''a'', ''1'')], val = None, nodes = [1]\<rparr>,
           \<lparr>tag = ''c'', attributes = [], val = Some ''text & more'', nodes = []\<rparr>] recursion_limit 0 0 \<noteq>
       Inr (''<r a="1">\<newline>'' @ [CHR 0x09] @ ''<c>text &amp; more</c>\<newline></r>'')\<close>
  by code_simp

text \<open>
  C3, amended. Parsing \<^verbatim>\<open><r a="1"><c>text &amp; more</c></r>\<close> into a new document
  gives a root node with tag \<^verbatim>\<open>r\<close>, the attribute \<^verbatim>\<open>a="1"\<close> and one child, with tag
  \<^verbatim>\<open>c\<close>, whose value is the decoded text \<^verbatim>\<open>text & more\<close>. Rendering that root, at any
  admitted depth of three or more, gives \<^verbatim>\<open><r a="1" >\<close>, a newline, a tab,
  \<^verbatim>\<open><c>text &amp; more</c>\<close>, a newline and \<^verbatim>\<open></r>\<close>; serializing the document gives
  that text after the line of the declaration.
\<close>

theorem round_trip:
  \<open>from_xml XmlRoot_default [] ''<r a="1"><c>text &amp; more</c></r>'' = Inr (\<lparr>version = ''1.0'', encoding = Some ''utf-8'', standalone = None, rootnode = Some 0\<rparr>, [\<lparr>tag = ''r'', attributes = [(''a'', ''1'')], val = None, nodes = [1]\<rparr>,
           \<lparr>tag = ''c'', attributes = [], val = Some ''text & more'', nodes = []\<rparr>])
   \<and> to_xml [\<lparr>tag = ''r'', attributes = [(''a'', ''1'')], val = None, nodes = [1]\<rparr>,
           \<lparr>tag = ''c'', attributes = [], val = Some ''text & more'', nodes = []\<rparr>] (Suc (Suc (Suc d))) 0 0 =
       Inr (''<r a="1" >\<newline>'' @ [CHR 0x09] @ ''<c>text &amp; more</c>\<newline></r>'')
   \<and> XmlRoot_to_xml [\<lparr>tag = ''r'', attributes = [(''a'', ''1'')], val = None, nodes = [1]\<rparr>,
           \<lparr>tag = ''c'', attributes = [], val = Some ''text & more'', nodes = []\<rparr>] (Suc (Suc (Suc d))) \<lparr>version = ''1.0'', encoding = Some ''utf-8'', standalone = None, rootnode = Some 0\<rparr> =
       Inr (''<?xml version="1.0" encoding="utf-8"  ?>\<newline>''
            @ ''<r a="1" >\<newline>'' @ [CHR 0x09] @ ''<c>text &amp; more</c>\<newline></r>'')\<close>
proof (intro conjI)
  show \<open>from_xml XmlRoot_default [] ''<r a="1"><c>text &amp; more</c></r>'' = Inr (\<lparr>version = ''1.0'', encoding = Some ''utf-8'', standalone = None, rootnode = Some 0\<rparr>, [\<lparr>tag = ''r'', attributes = [(''a'', ''1'')], val = None, nodes = [1]\<rparr>,
           \<lparr>tag = ''c'', attributes = [], val = Some ''text & more'', nodes = []\<rparr>])\<close>
    by code_simp
  have enc: \<open>encode_string ''text & more'' = ''text &amp; more''\<close> by code_simp
  have rep: \<open>replace ''1'' ''"'' ''&quot;'' = ''1''\<close> by code_simp
  show t: \<open>to_xml [\<lparr>tag = ''r'', attributes = [(''a'', ''1'')], val = None, nodes = [1]\<rparr>,
           \<lparr>tag = ''c'', attributes = [], val = Some ''text & more'', nodes = []\<rparr>] (Suc (Suc (Suc d))) 0 0 =
       Inr (''<r a="1" >\<newline>'' @ [CHR 0x09] @ ''<c>text &amp; more</c>\<newline></r>'')\<close>
    by (simp add: truthy_def attributes_to_xml_ok nodes_are_empty_def enc rep)
  have rep0: \<open>replace ''1.0'' ''"'' ''&quot;'' = ''1.0''\<close>
    \<open>replace ''utf-8'' ''"'' ''&quot;'' = ''utf-8''\<close> by code_simp+
  from t show \<open>XmlRoot_to_xml [\<lparr>tag = ''r'', attributes = [(''a'', ''1'')], val = None, nodes = [1]\<rparr>,
           \<lparr>tag = ''c'', attributes = [], val = Some ''text & more'', nodes = []\<rparr>] (Suc (Suc (Suc d))) \<lparr>version = ''1.0'', encoding = Some ''utf-8'', standalone = None, rootnode = Some 0\<rparr> =
       Inr (''<?xml version="1.0" encoding="utf-8"  ?>\<newline>''
            @ ''<r a="1" >\<newline>'' @ [CHR 0x09] @ ''<c>text &amp; more</c>\<newline></r>'')\<close>
    by (simp add: XmlRoot_to_xml_def serialize_xml_def XmlSerializer_init_def truthy_def
        attributes_to_xml_ok rep0 Let_def)
qed

section \<open>The XML declaration\<close>

text \<open>
  C4, as the specification states it, fails on the line of the declaration. After parsing
  \<^verbatim>\<open><?xml version="1.1" encoding="utf-8"?><r a="1"/>\<close> the text serialized does not
  start with the declaration in the form of the claim, with one space before \<^verbatim>\<open>?>\<close>:
  there are two, the space after the last attribute and the space of the format.
\<close>

theorem declaration_round_trip_counterexample:
  \<open>from_xml XmlRoot_default [] ''<?xml version="1.1" encoding="utf-8"?><r a="1"/>'' = Inr (\<lparr>version = ''1.1'', encoding = Some ''utf-8'', standalone = None, rootnode = Some 0\<rparr>, [\<lparr>tag = ''r'', attributes = [(''a'', ''1'')], val = None, nodes = []\<rparr>])
   \<and> XmlRoot_to_xml [\<lparr>tag = ''r'', attributes = [(''a'', ''1'')], val = None, nodes = []\<rparr>] recursion_limit \<lparr>version = ''1.1'', encoding = Some ''utf-8'', standalone = None, rootnode = Some 0\<rparr> =
       Inr ''<?xml version="1.1" encoding="utf-8"  ?>\<newline><r a="1" />''
   \<and> \<not> startswith ''<?xml version="1.1" encoding="utf-8"  ?>\<newline><r a="1" />''
                     ''<?xml version="1.1" encoding="utf-8" ?>\<newline>''\<close>
  by code_simp

text \<open>
  C4, amended. The token \<^verbatim>\<open><?xml version="1.1" encoding="utf-8"?>\<close> sets the version of
  the document to \<^verbatim>\<open>1.1\<close> and its encoding to \<^verbatim>\<open>utf-8\<close> and changes nothing else in
  the state of the parser; a key that a declaration does not carry leaves its field as it
  was. A document with that version and encoding, no standalone value and a root is
  serialized as the line \<^verbatim>\<open><?xml version="1.1" encoding="utf-8"  ?>\<close>, with two spaces
  before \<^verbatim>\<open>?>\<close> and a newline after it, followed by the rendering of the root.
\<close>

theorem declaration_round_trip:
  \<open>process_token p ''<?xml version="1.1" encoding="utf-8"?>'' =
      Inr (p\<lparr>xml_root := (xml_root p)\<lparr>version := ''1.1'', encoding := Some ''utf-8''\<rparr>\<rparr>)
   \<and> (map_of (XmlParser_get_attributes token) ''version'' = None
      \<longrightarrow> version (xml_root (process_xmldeclaration p token)) = version (xml_root p))
   \<and> (map_of (XmlParser_get_attributes token) ''encoding'' = None
      \<longrightarrow> encoding (xml_root (process_xmldeclaration p token)) = encoding (xml_root p))
   \<and> (map_of (XmlParser_get_attributes token) ''standalone'' = None
      \<longrightarrow> standalone (xml_root (process_xmldeclaration p token)) = standalone (xml_root p))
   \<and> (version r = ''1.1'' \<and> encoding r = Some ''utf-8'' \<and> \<not> truthy (standalone r)
        \<and> rootnode r = Some n \<and> to_xml h d n 0 = Inr x
      \<longrightarrow> XmlRoot_to_xml h d r =
            Inr (''<?xml version="1.1" encoding="utf-8"  ?>\<newline>'' @ x))\<close>
proof (intro conjI impI)
  show \<open>process_token p ''<?xml version="1.1" encoding="utf-8"?>'' =
      Inr (p\<lparr>xml_root := (xml_root p)\<lparr>version := ''1.1'', encoding := Some ''utf-8''\<rparr>\<rparr>)\<close>
    by (rule xml_declaration_token)
next
  assume \<open>map_of (XmlParser_get_attributes token) ''version'' = None\<close>
  then show \<open>version (xml_root (process_xmldeclaration p token)) = version (xml_root p)\<close>
    by (simp add: process_xmldeclaration_def Let_def split: option.splits)
next
  assume \<open>map_of (XmlParser_get_attributes token) ''encoding'' = None\<close>
  then show \<open>encoding (xml_root (process_xmldeclaration p token)) = encoding (xml_root p)\<close>
    by (simp add: process_xmldeclaration_def Let_def split: option.splits)
next
  assume \<open>map_of (XmlParser_get_attributes token) ''standalone'' = None\<close>
  then show \<open>standalone (xml_root (process_xmldeclaration p token)) = standalone (xml_root p)\<close>
    by (simp add: process_xmldeclaration_def Let_def split: option.splits)
next
  assume a: \<open>version r = ''1.1'' \<and> encoding r = Some ''utf-8'' \<and> \<not> truthy (standalone r)
        \<and> rootnode r = Some n \<and> to_xml h d n 0 = Inr x\<close>
  from a have a1: \<open>version r = ''1.1''\<close> by (rule conjunct1)
  from a have a2: \<open>encoding r = Some ''utf-8''\<close> by blast
  from a have a3: \<open>\<not> truthy (standalone r)\<close> by blast
  from a have a4: \<open>rootnode r = Some n\<close> by blast
  from a have a5: \<open>to_xml h d n 0 = Inr x\<close> by blast
  show \<open>XmlRoot_to_xml h d r =
            Inr (''<?xml version="1.1" encoding="utf-8"  ?>\<newline>'' @ x)\<close>
    by (rule serialize_declaration[OF a1 a2 a3 a4 a5])
qed

theorem declaration_round_trip_witness:
  \<open>from_xml XmlRoot_default [] ''<?xml version="1.1" encoding="utf-8"?><r a="1"/>'' = Inr (\<lparr>version = ''1.1'', encoding = Some ''utf-8'', standalone = None, rootnode = Some 0\<rparr>, [\<lparr>tag = ''r'', attributes = [(''a'', ''1'')], val = None, nodes = []\<rparr>])
   \<and> to_xml [\<lparr>tag = ''r'', attributes = [(''a'', ''1'')], val = None, nodes = []\<rparr>] recursion_limit 0 0 = Inr ''<r a="1" />''
   \<and> XmlRoot_to_xml [\<lparr>tag = ''r'', attributes = [(''a'', ''1'')], val = None, nodes = []\<rparr>] recursion_limit \<lparr>version = ''1.1'', encoding = Some ''utf-8'', standalone = None, rootnode = Some 0\<rparr> =
       Inr (''<?xml version="1.1" encoding="utf-8"  ?>\<newline>'' @ ''<r a="1" />'')
   \<and> map_of (XmlParser_get_attributes ''<?xml encoding="latin-1"?>'') ''version'' = None
   \<and> map_of (XmlParser_get_attributes ''<?xml encoding="latin-1"?>'') ''standalone'' = None
   \<and> map_of (XmlParser_get_attributes ''<?xml version="1.1"?>'') ''encoding'' = None
   \<and> version (xml_root (process_xmldeclaration
         \<lparr>xml_string = [], tokens_processed = [], tokens = [], xml_root = XmlRoot_default,
          current_node = None, parent_nodes = [], objects = [], printed = []\<rparr>
         ''<?xml encoding="latin-1"?>'')) = ''1.0''
   \<and> standalone (xml_root (process_xmldeclaration
         \<lparr>xml_string = [], tokens_processed = [], tokens = [], xml_root = XmlRoot_default,
          current_node = None, parent_nodes = [], objects = [], printed = []\<rparr>
         ''<?xml encoding="latin-1"?>'')) = None
   \<and> encoding (xml_root (process_xmldeclaration
         \<lparr>xml_string = [], tokens_processed = [], tokens = [], xml_root = XmlRoot_default,
          current_node = None, parent_nodes = [], objects = [], printed = []\<rparr>
         ''<?xml version="1.1"?>'')) = Some ''utf-8''\<close>
proof -
  let ?p = \<open>\<lparr>xml_string = [], tokens_processed = [], tokens = [], xml_root = XmlRoot_default,
          current_node = None, parent_nodes = [], objects = [], printed = []\<rparr>\<close>
  have 1: \<open>from_xml XmlRoot_default [] ''<?xml version="1.1" encoding="utf-8"?><r a="1"/>'' =
             Inr (\<lparr>version = ''1.1'', encoding = Some ''utf-8'', standalone = None, rootnode = Some 0\<rparr>, [\<lparr>tag = ''r'', attributes = [(''a'', ''1'')], val = None, nodes = []\<rparr>])\<close>
    by code_simp
  have 2: \<open>to_xml [\<lparr>tag = ''r'', attributes = [(''a'', ''1'')], val = None, nodes = []\<rparr>] recursion_limit 0 0 = Inr ''<r a="1" />''\<close> by code_simp
  have f: \<open>version \<lparr>version = ''1.1'', encoding = Some ''utf-8'', standalone = None, rootnode = Some 0\<rparr> = ''1.1'' \<and> encoding \<lparr>version = ''1.1'', encoding = Some ''utf-8'', standalone = None, rootnode = Some 0\<rparr> = Some ''utf-8'' \<and> \<not> truthy (standalone \<lparr>version = ''1.1'', encoding = Some ''utf-8'', standalone = None, rootnode = Some 0\<rparr>)
        \<and> rootnode \<lparr>version = ''1.1'', encoding = Some ''utf-8'', standalone = None, rootnode = Some 0\<rparr> = Some 0\<close>
    by (simp add: truthy_def)
  have a: \<open>map_of (XmlParser_get_attributes ''<?xml encoding="latin-1"?>'') ''version'' = None\<close>
    by code_simp
  have b: \<open>map_of (XmlParser_get_attributes ''<?xml encoding="latin-1"?>'') ''standalone'' = None\<close>
    by code_simp
  have c: \<open>map_of (XmlParser_get_attributes ''<?xml version="1.1"?>'') ''encoding'' = None\<close>
    by code_simp
  from declaration_round_trip[where r = \<open>\<lparr>version = ''1.1'', encoding = Some ''utf-8'', standalone = None, rootnode = Some 0\<rparr>\<close> and h = \<open>[\<lparr>tag = ''r'', attributes = [(''a'', ''1'')], val = None, nodes = []\<rparr>]\<close> and d = recursion_limit and n = 0
      and x = \<open>''<r a="1" />''\<close>] f 2
  have 3: \<open>XmlRoot_to_xml [\<lparr>tag = ''r'', attributes = [(''a'', ''1'')], val = None, nodes = []\<rparr>] recursion_limit \<lparr>version = ''1.1'', encoding = Some ''utf-8'', standalone = None, rootnode = Some 0\<rparr> =
       Inr (''<?xml version="1.1" encoding="utf-8"  ?>\<newline>'' @ ''<r a="1" />'')\<close>
    by blast
  from declaration_round_trip[where p = ?p and token = \<open>''<?xml encoding="latin-1"?>''\<close>] a b
  have 4: \<open>version (xml_root (process_xmldeclaration ?p ''<?xml encoding="latin-1"?>'')) = ''1.0''\<close>
    and 5: \<open>standalone (xml_root (process_xmldeclaration ?p ''<?xml encoding="latin-1"?>'')) = None\<close>
    by (simp_all add: XmlRoot_default_def XmlRoot_init_def truthy_def)
  from declaration_round_trip[where p = ?p and token = \<open>''<?xml version="1.1"?>''\<close>] c
  have 6: \<open>encoding (xml_root (process_xmldeclaration ?p ''<?xml version="1.1"?>'')) = Some ''utf-8''\<close>
    by (simp add: XmlRoot_default_def XmlRoot_init_def)
  from 1 2 3 a b c 4 5 6 show ?thesis by blast
qed

text \<open>
  C8. The version of a document should never be empty. The constructor keeps it so: a
  version that is unset or empty becomes \<^verbatim>\<open>1.0\<close>. The parser does not: the theorem
  evaluates the code at \<^verbatim>\<open><?xml version=""?><a/>\<close>, parsed into a new document, whose
  version is the empty string afterwards.
\<close>

theorem version_emptied_by_declaration:
  \<open>version (XmlRoot_init None enc sa rn) = ''1.0''
   \<and> version (XmlRoot_init (Some []) enc sa rn) = ''1.0''
   \<and> version XmlRoot_default = ''1.0''
   \<and> from_xml XmlRoot_default [] ''<?xml version=""?><a/>'' =
       Inr (\<lparr>version = [], encoding = Some ''utf-8'', standalone = None, rootnode = Some 0\<rparr>,
            [\<lparr>tag = ''a'', attributes = [], val = None, nodes = []\<rparr>])\<close>
proof (intro conjI)
  show \<open>from_xml XmlRoot_default [] ''<?xml version=""?><a/>'' =
       Inr (\<lparr>version = [], encoding = Some ''utf-8'', standalone = None, rootnode = Some 0\<rparr>,
            [\<lparr>tag = ''a'', attributes = [], val = None, nodes = []\<rparr>])\<close>
    by code_simp
qed (simp_all add: XmlRoot_init_def XmlRoot_default_def truthy_def)

end
